theory Spec2Isabelle
  imports Main "HOL-Library.Sublist"
begin

section \<open>Python string operations used by the handlers\<close>

text \<open>
  Python strings are modelled as \<open>string\<close>; a \<open>char\<close> stands for one code point
  below 256, so \<open>length\<close> is Python's \<open>len\<close> on such strings.

  \<open>contains sub s\<close> is Python's \<^verbatim>\<open>sub in s\<close>.
\<close>

fun contains :: "string \<Rightarrow> string \<Rightarrow> bool" where
  "contains sub [] = (sub = [])"
| "contains sub (c # cs) = (prefix sub (c # cs) \<or> contains sub cs)"

text \<open>
  \<open>partition_py sep s\<close> cuts \<open>s\<close> at the leftmost occurrence of \<open>sep\<close>, as
  \<^verbatim>\<open>s.partition(sep)\<close> does: the text before it and the text after it, or \<open>None\<close>
  when \<open>sep\<close> does not occur.
\<close>

fun partition_py :: "string \<Rightarrow> string \<Rightarrow> (string \<times> string) option" where
  "partition_py sep [] = (if sep = [] then Some ([], []) else None)"
| "partition_py sep (c # cs) =
     (if prefix sep (c # cs) then Some ([], drop (length sep) (c # cs))
      else map_option (\<lambda>(a, b). (c # a, b)) (partition_py sep cs))"

lemma partition_py_shorter:
  "partition_py sep s = Some (a, b) \<Longrightarrow> sep \<noteq> [] \<Longrightarrow> length b < length s"
proof (induction s arbitrary: a)
  case Nil
  then show ?case by simp
next
  case (Cons c cs)
  show ?case
  proof (cases "prefix sep (c # cs)")
    case True
    with Cons.prems show ?thesis by auto
  next
    case False
    with Cons.prems obtain a' where "partition_py sep cs = Some (a', b)"
      by auto
    with Cons.IH Cons.prems(2) have "length b < length cs" by blast
    then show ?thesis by simp
  qed
qed

text \<open>
  \<open>py_split sep s\<close> is \<^verbatim>\<open>s.split(sep)\<close>: the pieces between the non-overlapping
  occurrences of \<open>sep\<close>, found from the left. Python raises \<^verbatim>\<open>ValueError\<close> on an empty
  separator; both call sites pass a non-empty literal, and the model returns no piece
  at all in that case, so that indexing the result fails.
\<close>

function py_split :: "string \<Rightarrow> string \<Rightarrow> string list" where
  "py_split sep s =
     (if sep = [] then []
      else (case partition_py sep s of
              None \<Rightarrow> [s]
            | Some (a, b) \<Rightarrow> a # py_split sep b))"
  by pat_completeness auto
termination
  by (relation "measure (\<lambda>(sep, s). length s)") (auto dest: partition_py_shorter)

declare py_split.simps [simp del]

text \<open>List indexing with a non-negative index: \<^verbatim>\<open>IndexError\<close> out of range.\<close>

definition index_py :: "'a list \<Rightarrow> nat \<Rightarrow> string + 'a" where
  "index_py xs i = (if i < length xs then Inr (xs ! i) else Inl ''list index out of range'')"

text \<open>
  \<^verbatim>\<open>str.isspace\<close> on one code point below 256, and \<^verbatim>\<open>str.strip()\<close>.
\<close>

definition isspace :: "char \<Rightarrow> bool" where
  "isspace c = (of_char c \<in> {9, 10, 11, 12, 13, 28, 29, 30, 31, 32, 133, 160 :: nat})"

definition py_strip :: "string \<Rightarrow> string" where
  "py_strip s = rev (dropWhile isspace (rev (dropWhile isspace s)))"

section \<open>Requests, responses and the shared browser session\<close>

record LoginRequest =
  email :: string
  verification_code :: "string option"

record OAuthRequest =
  oauth_url :: string

record OAuthResponse =
  success :: bool
  code :: "string option"
  error :: "string option"
  request_id :: string
  timestamp :: nat

record LoginResponse =
  status :: string
  message :: string
  session_active :: bool

text \<open>The dictionary returned by \<^verbatim>\<open>get_status\<close>.\<close>

record StatusResponse =
  browser_active :: bool
  pages_open :: nat
  current_url :: "string option"
  logged_in :: bool

text \<open>\<^verbatim>\<open>HTTPException(status_code, detail)\<close>.\<close>

datatype http_exception = HTTPException nat string

text \<open>
  A page is a handle. The browser context holds the list of its open pages
  (\<^verbatim>\<open>browser_context.pages\<close>) and the next unused handle. The page list changes
  only through \<^verbatim>\<open>new_page()\<close> and \<^verbatim>\<open>page.close()\<close>.
\<close>

type_synonym page = nat

record BrowserContext =
  pages :: "page list"
  fresh :: page

text \<open>Every awaited call on the browser is recorded, in order.\<close>

datatype action =
    NewPage
  | Goto string
  | WaitForLoadState
  | Fill string string
  | Click string
  | WaitForSelector string
  | LocatorAll string
  | FillNth nat char
  | IsVisible string
  | TextContent string
  | Content
  | Close page

text \<open>
  The server state: the global \<^verbatim>\<open>browser_context\<close> (\<open>None\<close> before startup) and
  the calls made on the browser so far.
\<close>

record server =
  browser_context :: "BrowserContext option"
  trace :: "action list"

text \<open>
  What the browser answers during one request. Each awaited call either raises
  (\<open>Inl\<close> of the exception's text, \<^verbatim>\<open>str(e)\<close>) or returns (\<open>Inr\<close>). A handler makes
  each call at most once per argument, except \<^verbatim>\<open>wait_for_load_state\<close> and the read of
  \<^verbatim>\<open>page.url\<close>, which are numbered in the order of the handler's text. The regular
  expression search of the standard library is a parameter as well:
  \<open>re_search B pattern text\<close> is group 1 of the leftmost match, if there is one.
  \<open>uuid4_r\<close> and \<open>utcnow_r\<close> are the defaults of \<^verbatim>\<open>request_id\<close> and \<^verbatim>\<open>timestamp\<close>.
  \<^verbatim>\<open>asyncio.sleep\<close> has no effect here. In the handlers of the next sections every
  \<^verbatim>\<open>await page.close()\<close> returns; the last section of the model takes up the closes
  that raise.
\<close>

record browser =
  new_page_r :: "string + unit"
  goto_r :: "string \<Rightarrow> string + unit"
  load_state_r :: "nat \<Rightarrow> string + unit"
  url_r :: "page \<Rightarrow> nat \<Rightarrow> string"
  fill_r :: "string \<Rightarrow> string \<Rightarrow> string + unit"
  click_r :: "string \<Rightarrow> string + unit"
  wait_for_selector_r :: "string \<Rightarrow> string + unit"
  locator_all_r :: "string \<Rightarrow> string + nat"
  fill_nth_r :: "nat \<Rightarrow> char \<Rightarrow> string + unit"
  is_visible_r :: "string \<Rightarrow> string + bool"
  text_content_r :: "string \<Rightarrow> string + string option"
  content_r :: "string + string"
  re_search :: "string \<Rightarrow> string \<Rightarrow> string option"
  uuid4_r :: string
  utcnow_r :: nat

definition call :: "action \<Rightarrow> 'a \<Rightarrow> server \<Rightarrow> 'a \<times> server" where
  "call a r s = (r, s\<lparr>trace := trace s @ [a]\<rparr>)"

definition new_page :: "browser \<Rightarrow> BrowserContext \<Rightarrow> server \<Rightarrow> (string + page) \<times> server" where
  "new_page B c s =
     (case new_page_r B of
        Inl e \<Rightarrow> call NewPage (Inl e) s
      | Inr _ \<Rightarrow>
          call NewPage (Inr (fresh c))
            (s\<lparr>browser_context := Some (c\<lparr>pages := pages c @ [fresh c], fresh := Suc (fresh c)\<rparr>)\<rparr>))"

text \<open>The effect of a \<^verbatim>\<open>page.close()\<close> that returns: the page leaves the context.\<close>

definition page_close :: "page \<Rightarrow> server \<Rightarrow> server" where
  "page_close p s =
     s\<lparr>browser_context := map_option (\<lambda>c. c\<lparr>pages := removeAll p (pages c)\<rparr>) (browser_context s),
        trace := trace s @ [Close p]\<rparr>"

definition page_goto :: "browser \<Rightarrow> string \<Rightarrow> server \<Rightarrow> (string + unit) \<times> server" where
  "page_goto B url s = call (Goto url) (goto_r B url) s"

definition wait_for_load_state :: "browser \<Rightarrow> nat \<Rightarrow> server \<Rightarrow> (string + unit) \<times> server" where
  "wait_for_load_state B k s = call WaitForLoadState (load_state_r B k) s"

definition page_fill :: "browser \<Rightarrow> string \<Rightarrow> string \<Rightarrow> server \<Rightarrow> (string + unit) \<times> server" where
  "page_fill B sel v s = call (Fill sel v) (fill_r B sel v) s"

definition click :: "browser \<Rightarrow> string \<Rightarrow> server \<Rightarrow> (string + unit) \<times> server" where
  "click B sel s = call (Click sel) (click_r B sel) s"

definition wait_for_selector :: "browser \<Rightarrow> string \<Rightarrow> server \<Rightarrow> (string + unit) \<times> server" where
  "wait_for_selector B sel s = call (WaitForSelector sel) (wait_for_selector_r B sel) s"

definition locator_all :: "browser \<Rightarrow> string \<Rightarrow> server \<Rightarrow> (string + nat) \<times> server" where
  "locator_all B sel s = call (LocatorAll sel) (locator_all_r B sel) s"

definition fill_nth :: "browser \<Rightarrow> nat \<Rightarrow> char \<Rightarrow> server \<Rightarrow> (string + unit) \<times> server" where
  "fill_nth B i d s = call (FillNth i d) (fill_nth_r B i d) s"

definition is_visible :: "browser \<Rightarrow> string \<Rightarrow> server \<Rightarrow> (string + bool) \<times> server" where
  "is_visible B sel s = call (IsVisible sel) (is_visible_r B sel) s"

definition text_content :: "browser \<Rightarrow> string \<Rightarrow> server \<Rightarrow> (string + string option) \<times> server" where
  "text_content B sel s = call (TextContent sel) (text_content_r B sel) s"

definition page_content :: "browser \<Rightarrow> server \<Rightarrow> (string + string) \<times> server" where
  "page_content B s = call Content (content_r B) s"

section \<open>The API key check\<close>

text \<open>
  \<^verbatim>\<open>verify_api_key\<close>, with the configured \<^verbatim>\<open>API_KEY\<close> as its first argument and the
  value of the \<^verbatim>\<open>X-API-Key\<close> header (\<open>None\<close> when absent) as its second.
\<close>

definition verify_api_key :: "string \<Rightarrow> string option \<Rightarrow> http_exception + string" where
  "verify_api_key API_KEY api_key =
     (case api_key of
        None \<Rightarrow> Inl (HTTPException 401 ''Invalid API key'')
      | Some k \<Rightarrow>
          if k = [] \<or> k \<noteq> API_KEY then Inl (HTTPException 401 ''Invalid API key'')
          else Inr k)"

section \<open>The login flow\<close>

text \<open>
  Sequencing of awaited calls inside a \<^verbatim>\<open>try\<close> block: the first call that raises
  ends the block with its exception.
\<close>

definition then_do ::
  "(string + 'a) \<times> server \<Rightarrow> ('a \<Rightarrow> server \<Rightarrow> (string + 'b) \<times> server) \<Rightarrow> (string + 'b) \<times> server" where
  "then_do m f = (case m of (Inl e, s) \<Rightarrow> (Inl e, s) | (Inr x, s) \<Rightarrow> f x s)"

definition login_url :: string where
  "login_url = ''https://claude.ai/login''"

definition email_input :: string where
  "email_input = ''input[type=\"email\"]''"

definition continue_button :: string where
  "continue_button = ''button:has-text(\"Continue with email\")''"

definition code_prompt :: string where
  "code_prompt = ''text=verification code''"

definition numeric_input :: string where
  "numeric_input = ''input[inputmode=\"numeric\"]''"

text \<open>
  Both branches of \<^verbatim>\<open>login\<close> start with the same four calls: open the login page,
  wait for the network to settle, fill in the email, click the continue button.
\<close>

definition enter_email :: "browser \<Rightarrow> string \<Rightarrow> server \<Rightarrow> (string + unit) \<times> server" where
  "enter_email B em s =
     then_do (page_goto B login_url s) (\<lambda>_ s1.
     then_do (wait_for_load_state B 0 s1) (\<lambda>_ s2.
     then_do (page_fill B email_input em s2) (\<lambda>_ s3.
     click B continue_button s3)))"

text \<open>
  The loop over \<^verbatim>\<open>enumerate(str(request.verification_code))\<close>: digit \<open>i\<close> goes into
  box \<open>i\<close> when there is one; \<open>n\<close> is the number of boxes found.
\<close>

fun fill_digits :: "browser \<Rightarrow> nat \<Rightarrow> nat \<Rightarrow> string \<Rightarrow> server \<Rightarrow> (string + unit) \<times> server" where
  "fill_digits B n i [] s = (Inr (), s)"
| "fill_digits B n i (d # ds) s =
     (if i < n then then_do (fill_nth B i d s) (\<lambda>_ s1. fill_digits B n (Suc i) ds s1)
      else fill_digits B n (Suc i) ds s)"

definition enter_code :: "browser \<Rightarrow> string \<Rightarrow> string \<Rightarrow> server \<Rightarrow> (string + unit) \<times> server" where
  "enter_code B em vc s =
     then_do (enter_email B em s) (\<lambda>_ s1.
     then_do (wait_for_selector B numeric_input s1) (\<lambda>_ s2.
     then_do (locator_all B numeric_input s2) (\<lambda>n s3.
     then_do (fill_digits B n 0 vc s3) (\<lambda>_ s4.
     wait_for_load_state B 1 s4))))"

text \<open>
  The first call of the protocol (no code in the request): after the email is
  submitted, wait for the verification prompt. Only this wait has a handler of its
  own; an exception before it reaches the handler of \<^verbatim>\<open>login\<close>, which closes the
  page and answers with status 500 and the exception's text.
\<close>

definition login_step1 ::
  "browser \<Rightarrow> string \<Rightarrow> page \<Rightarrow> server \<Rightarrow> (http_exception + LoginResponse) \<times> server" where
  "login_step1 B em page s0 =
     (case enter_email B em s0 of
        (Inl e, s1) \<Rightarrow> (Inl (HTTPException 500 e), page_close page s1)
      | (Inr _, s1) \<Rightarrow>
         (case wait_for_selector B code_prompt s1 of
            (Inr _, s2) \<Rightarrow>
              (Inr \<lparr>status = ''verification_required'',
                    message = ''Check your email for verification code'',
                    session_active = False\<rparr>, page_close page s2)
          | (Inl _, s2) \<Rightarrow>
              (Inr \<lparr>status = ''error'',
                    message = ''Failed to reach verification screen'',
                    session_active = False\<rparr>, page_close page s2)))"

text \<open>
  The second call (a code in the request): after the code is entered and the
  network has settled, the page's URL decides. On success the page stays open.
\<close>

definition login_step2 ::
  "browser \<Rightarrow> string \<Rightarrow> string \<Rightarrow> page \<Rightarrow> server \<Rightarrow> (http_exception + LoginResponse) \<times> server" where
  "login_step2 B em vc page s0 =
     (case enter_code B em vc s0 of
        (Inl e, s1) \<Rightarrow> (Inl (HTTPException 500 e), page_close page s1)
      | (Inr _, s1) \<Rightarrow>
         (let current_url = url_r B page 0 in
          if contains ''claude.ai/chat'' current_url \<or> contains ''claude.ai/new'' current_url then
            (Inr \<lparr>status = ''success'',
                  message = ''Successfully logged in to Claude'',
                  session_active = True\<rparr>, s1)
          else
            (Inr \<lparr>status = ''failed'',
                  message = ''Login failed - please check credentials'',
                  session_active = False\<rparr>, page_close page s1)))"

text \<open>
  \<^verbatim>\<open>login\<close> of \<^verbatim>\<open>main.py\<close>. An exception of \<^verbatim>\<open>new_page()\<close> leaves no \<^verbatim>\<open>page\<close> to
  close. \<^verbatim>\<open>not request.verification_code\<close> holds for \<^verbatim>\<open>None\<close> and for the empty
  string.
\<close>

definition login :: "browser \<Rightarrow> LoginRequest \<Rightarrow> server \<Rightarrow> (http_exception + LoginResponse) \<times> server" where
  "login B request s =
     (case browser_context s of
        None \<Rightarrow>
          (Inl (HTTPException 500 (CHR 0x27 # ''NoneType' object has no attribute 'new_page'' @ [CHR 0x27])), s)
      | Some c \<Rightarrow>
         (case new_page B c s of
            (Inl e, s0) \<Rightarrow> (Inl (HTTPException 500 e), s0)
          | (Inr page, s0) \<Rightarrow>
             (case verification_code request of
                None \<Rightarrow> login_step1 B (email request) page s0
              | Some vc \<Rightarrow>
                  if vc = [] then login_step1 B (email request) page s0
                  else login_step2 B (email request) vc page s0)))"

section \<open>The OAuth authorization flow\<close>

definition authorize_selectors :: "string list" where
  "authorize_selectors =
     [''button:has-text(\"Authorize\")'',
      ''button:has-text(\"Allow\")'',
      ''button:has-text(\"Approve\")'',
      ''button[type=\"submit\"]:not(:disabled)'',
      ''button.btn-primary'',
      ''input[type=\"submit\"][value*=\"Authorize\"]'']"

definition code_selectors :: "string list" where
  "code_selectors =
     [''code:has-text(\"\")'',
      ''pre:has-text(\"\")'',
      ''.authorization-code'',
      ''input[readonly]:not([type=\"password\"])'',
      ''span.code'',
      ''div.code'']"

definition code_patterns :: "string list" where
  "code_patterns =
     [''code[\"'' @ [CHR 0x5C] @ ''s:]+([A-Za-z0-9_-]{20,})'',
      ''authorization.code[\"'' @ [CHR 0x5C] @ ''s:]+([A-Za-z0-9_-]{20,})'',
      ''>([A-Za-z0-9_-]{40,})<'']"

definition oauth_success :: "browser \<Rightarrow> string \<Rightarrow> OAuthResponse" where
  "oauth_success B c =
     \<lparr>success = True, code = Some c, error = None,
      request_id = uuid4_r B, timestamp = utcnow_r B\<rparr>"

definition oauth_failure :: "browser \<Rightarrow> string \<Rightarrow> OAuthResponse" where
  "oauth_failure B e =
     \<lparr>success = False, code = None, error = Some e,
      request_id = uuid4_r B, timestamp = utcnow_r B\<rparr>"

text \<open>
  \<^verbatim>\<open>await page.close() if not pages else None\<close>, and the same test in the handler
  of \<^verbatim>\<open>except Exception\<close>: the page is closed only when the handler opened it.
  \<open>pgs\<close> is the list \<^verbatim>\<open>pages\<close> read at the start of the call.
\<close>

definition close_unless_reused :: "page list \<Rightarrow> page \<Rightarrow> server \<Rightarrow> server" where
  "close_unless_reused pgs p s = (if pgs = [] then page_close p s else s)"

text \<open>
  The loop over \<^verbatim>\<open>authorize_selectors\<close>: a selector whose visibility test raises or
  answers \<^verbatim>\<open>False\<close>, or whose click raises, is passed over; the loop ends at the
  first click that returns.
\<close>

fun click_authorize :: "browser \<Rightarrow> string list \<Rightarrow> server \<Rightarrow> bool \<times> server" where
  "click_authorize B [] s = (False, s)"
| "click_authorize B (sel # sels) s =
     (case is_visible B sel s of
        (Inr True, s1) \<Rightarrow>
          (case click B sel s1 of
             (Inr _, s2) \<Rightarrow> (True, s2)
           | (Inl _, s2) \<Rightarrow> click_authorize B sels s2)
      | (_, s1) \<Rightarrow> click_authorize B sels s1)"

text \<open>
  The loop over \<^verbatim>\<open>code_selectors\<close>: the text of the first visible element whose
  text is longer than 10, stripped.
\<close>

fun code_from_elements :: "browser \<Rightarrow> string list \<Rightarrow> server \<Rightarrow> string option \<times> server" where
  "code_from_elements B [] s = (None, s)"
| "code_from_elements B (sel # sels) s =
     (case is_visible B sel s of
        (Inr True, s1) \<Rightarrow>
          (case text_content B sel s1 of
             (Inr (Some code_text), s2) \<Rightarrow>
               if code_text \<noteq> [] \<and> length code_text > 10 then (Some (py_strip code_text), s2)
               else code_from_elements B sels s2
           | (_, s2) \<Rightarrow> code_from_elements B sels s2)
      | (_, s1) \<Rightarrow> code_from_elements B sels s1)"

text \<open>The loop over \<^verbatim>\<open>code_patterns\<close>: group 1 of the first pattern that matches.\<close>

fun code_from_patterns :: "browser \<Rightarrow> string list \<Rightarrow> string \<Rightarrow> string option" where
  "code_from_patterns B [] html = None"
| "code_from_patterns B (pattern # patterns) html =
     (case re_search B pattern html of
        Some c \<Rightarrow> Some c
      | None \<Rightarrow> code_from_patterns B patterns html)"

definition not_extracted :: string where
  "not_extracted = ''Could not extract authorization code from response''"

text \<open>
  The extraction of the code, from the read of \<^verbatim>\<open>page.url\<close> after the click to the end
  of the \<^verbatim>\<open>try\<close> block. An \<^verbatim>\<open>IndexError\<close> of the two subscripts would reach the
  handler of \<^verbatim>\<open>except Exception\<close>; an exception of \<^verbatim>\<open>page.content()\<close> is caught by the
  inner handler, which only logs it.
\<close>

definition extract_code ::
  "browser \<Rightarrow> page list \<Rightarrow> page \<Rightarrow> server \<Rightarrow> (http_exception + OAuthResponse) \<times> server" where
  "extract_code B pgs page s =
     (let current_url = url_r B page 1 in
      if contains ''code='' current_url then
        (case index_py (py_split ''code='' current_url) 1 of
           Inl e \<Rightarrow> (Inr (oauth_failure B e), close_unless_reused pgs page s)
         | Inr after \<Rightarrow>
            (case index_py (py_split ''&'' after) 0 of
               Inl e \<Rightarrow> (Inr (oauth_failure B e), close_unless_reused pgs page s)
             | Inr c \<Rightarrow> (Inr (oauth_success B c), s)))
      else
        (case code_from_elements B code_selectors s of
           (Some c, s1) \<Rightarrow> (Inr (oauth_success B c), s1)
         | (None, s1) \<Rightarrow>
            (case page_content B s1 of
               (Inl _, s2) \<Rightarrow>
                 (Inr (oauth_failure B not_extracted), close_unless_reused pgs page s2)
             | (Inr html, s2) \<Rightarrow>
                (case code_from_patterns B code_patterns html of
                   Some c \<Rightarrow> (Inr (oauth_success B c), s2)
                 | None \<Rightarrow>
                     (Inr (oauth_failure B not_extracted), close_unless_reused pgs page s2)))))"

definition no_button :: string where
  "no_button = ''Could not find authorize button on page''"

text \<open>
  The branch \<^verbatim>\<open>if not clicked\<close>: the body's text is read for the debug log, and its
  first 500 characters are taken, which raises \<^verbatim>\<open>TypeError\<close> when the text is \<^verbatim>\<open>None\<close>.
\<close>

definition button_not_found ::
  "browser \<Rightarrow> page list \<Rightarrow> page \<Rightarrow> server \<Rightarrow> (http_exception + OAuthResponse) \<times> server" where
  "button_not_found B pgs page s =
     (case text_content B ''body'' s of
        (Inl e, s1) \<Rightarrow> (Inr (oauth_failure B e), close_unless_reused pgs page s1)
      | (Inr None, s1) \<Rightarrow>
          (Inr (oauth_failure B (CHR 0x27 # ''NoneType' object is not subscriptable'')),
           close_unless_reused pgs page s1)
      | (Inr (Some page_text), s1) \<Rightarrow>
          (Inr (oauth_failure B no_button), close_unless_reused pgs page s1))"

text \<open>
  From the search for the authorize button to the end of the \<^verbatim>\<open>try\<close> block: the
  click, the wait for the redirect, the extraction.
\<close>

definition click_and_extract ::
  "browser \<Rightarrow> page list \<Rightarrow> page \<Rightarrow> server \<Rightarrow> (http_exception + OAuthResponse) \<times> server" where
  "click_and_extract B pgs page s =
     (case click_authorize B authorize_selectors s of
        (False, s1) \<Rightarrow> button_not_found B pgs page s1
      | (True, s1) \<Rightarrow>
         (case wait_for_load_state B 1 s1 of
            (Inl e, s2) \<Rightarrow> (Inr (oauth_failure B e), close_unless_reused pgs page s2)
          | (Inr _, s2) \<Rightarrow> extract_code B pgs page s2))"

text \<open>
  The handler once it has its page: navigation, the login test on the URL, and the
  rest. Every exception that is not an \<^verbatim>\<open>HTTPException\<close> becomes a response with
  \<^verbatim>\<open>success=False\<close> and the exception's text.
\<close>

definition authorize_on_page ::
  "browser \<Rightarrow> OAuthRequest \<Rightarrow> page list \<Rightarrow> page \<Rightarrow> server \<Rightarrow> (http_exception + OAuthResponse) \<times> server" where
  "authorize_on_page B request pgs page s =
     (case then_do (page_goto B (oauth_url request) s) (\<lambda>_ s1. wait_for_load_state B 0 s1) of
        (Inl e, s2) \<Rightarrow> (Inr (oauth_failure B e), close_unless_reused pgs page s2)
      | (Inr _, s2) \<Rightarrow>
         (if contains ''login'' (url_r B page 0) then
            (Inl (HTTPException 401 ''Not logged in. Please use /login endpoint first.''),
             close_unless_reused pgs page s2)
          else click_and_extract B pgs page s2))"

text \<open>
  \<^verbatim>\<open>authorize_oauth\<close> of \<^verbatim>\<open>main.py\<close>: the first open page is used when there is
  one, a new page is opened otherwise. While \<^verbatim>\<open>page\<close> is still \<^verbatim>\<open>None\<close> the handler
  of \<^verbatim>\<open>except Exception\<close> closes nothing.
\<close>

definition authorize_oauth ::
  "browser \<Rightarrow> OAuthRequest \<Rightarrow> server \<Rightarrow> (http_exception + OAuthResponse) \<times> server" where
  "authorize_oauth B request s =
     (case browser_context s of
        None \<Rightarrow>
          (Inr (oauth_failure B (CHR 0x27 # ''NoneType' object has no attribute 'pages'' @ [CHR 0x27])), s)
      | Some c \<Rightarrow>
         (case pages c of
            page # _ \<Rightarrow> authorize_on_page B request (pages c) page s
          | [] \<Rightarrow>
             (case new_page B c s of
                (Inl e, s0) \<Rightarrow> (Inr (oauth_failure B e), s0)
              | (Inr page, s0) \<Rightarrow> authorize_on_page B request [] page s0)))"

section \<open>The status report\<close>

text \<open>
  \<^verbatim>\<open>get_status\<close> of \<^verbatim>\<open>main.py\<close>. It reads properties only, none of which raises, and
  makes no call on the browser; the three reads of \<^verbatim>\<open>current_page.url\<close> happen with no
  \<^verbatim>\<open>await\<close> between them and see one value.
\<close>

definition get_status :: "browser \<Rightarrow> server \<Rightarrow> StatusResponse" where
  "get_status B s =
     (let pgs = (case browser_context s of Some c \<Rightarrow> pages c | None \<Rightarrow> []);
          current_page = (case pgs of p # _ \<Rightarrow> Some p | [] \<Rightarrow> None)
      in \<lparr>browser_active = (browser_context s \<noteq> None),
          pages_open = length pgs,
          current_url = (case current_page of Some p \<Rightarrow> Some (url_r B p 0) | None \<Rightarrow> None),
          logged_in =
            (case current_page of
               Some p \<Rightarrow> contains ''claude.ai/chat'' (url_r B p 0) \<or> contains ''claude.ai/new'' (url_r B p 0)
             | None \<Rightarrow> False)\<rparr>)"

section \<open>The protected endpoints\<close>

text \<open>
  Each protected route depends on \<^verbatim>\<open>verify_api_key\<close>: when the check raises, the
  handler is not called and the exception is the response. \<open>API_KEY\<close> is the
  configured key, \<open>hdr\<close> the \<^verbatim>\<open>X-API-Key\<close> header of the request.
\<close>

definition post_login ::
  "string \<Rightarrow> browser \<Rightarrow> string option \<Rightarrow> LoginRequest \<Rightarrow> server \<Rightarrow> (http_exception + LoginResponse) \<times> server" where
  "post_login API_KEY B hdr request s =
     (case verify_api_key API_KEY hdr of
        Inl e \<Rightarrow> (Inl e, s)
      | Inr _ \<Rightarrow> login B request s)"

definition post_oauth_authorize ::
  "string \<Rightarrow> browser \<Rightarrow> string option \<Rightarrow> OAuthRequest \<Rightarrow> server \<Rightarrow> (http_exception + OAuthResponse) \<times> server" where
  "post_oauth_authorize API_KEY B hdr request s =
     (case verify_api_key API_KEY hdr of
        Inl e \<Rightarrow> (Inl e, s)
      | Inr _ \<Rightarrow> authorize_oauth B request s)"

definition get_status_endpoint ::
  "string \<Rightarrow> browser \<Rightarrow> string option \<Rightarrow> server \<Rightarrow> (http_exception + StatusResponse) \<times> server" where
  "get_status_endpoint API_KEY B hdr s =
     (case verify_api_key API_KEY hdr of
        Inl e \<Rightarrow> (Inl e, s)
      | Inr _ \<Rightarrow> (Inr (get_status B s), s))"

section \<open>The handlers when \<^verbatim>\<open>page.close()\<close> may raise\<close>

text \<open>
  The handlers above describe the requests during which every \<^verbatim>\<open>await page.close()\<close>
  returns. This section drops that assumption. Each handler has four places where it
  closes its page, numbered in the order of the handler's text: in \<^verbatim>\<open>login\<close>, after the
  verification prompt appeared (0), in the handler of the wait for it (1), after a
  login that failed (2), and in the handler of \<^verbatim>\<open>except Exception\<close> (3); in
  \<^verbatim>\<open>authorize_oauth\<close>, before the 401 (0), when no button was found (1), when no code
  was found (2), and in the handler of \<^verbatim>\<open>except Exception\<close> (3). \<open>C k\<close> is what the
  close at place \<open>k\<close> answers. A close that raises leaves the page in the context.
\<close>

type_synonym closes = "nat \<Rightarrow> string + unit"

definition close_page :: "closes \<Rightarrow> nat \<Rightarrow> page \<Rightarrow> server \<Rightarrow> (string + unit) \<times> server" where
  "close_page C k p s =
     (case C k of
        Inl e \<Rightarrow> call (Close p) (Inl e) s
      | Inr _ \<Rightarrow> (Inr (), page_close p s))"

text \<open>\<^verbatim>\<open>await page.close() if not pages else None\<close>, at place \<open>k\<close>.\<close>

definition close_if_opened ::
  "closes \<Rightarrow> nat \<Rightarrow> page list \<Rightarrow> page \<Rightarrow> server \<Rightarrow> (string + unit) \<times> server" where
  "close_if_opened C k pgs p s = (if pgs = [] then close_page C k p s else (Inr (), s))"

text \<open>
  An exception that leaves a block or a handler: an \<^verbatim>\<open>HTTPException\<close>, or any other
  exception with its text. The framework turns the first into a response with that
  status and detail, and answers the second with a plain status 500.
\<close>

datatype py_exception = Http http_exception | Other string

definition response_status :: "py_exception \<Rightarrow> nat" where
  "response_status x = (case x of Http (HTTPException st _) \<Rightarrow> st | Other _ \<Rightarrow> 500)"

subsection \<open>\<^verbatim>\<open>login\<close>\<close>

text \<open>
  The two branches of the \<^verbatim>\<open>try\<close> block of \<^verbatim>\<open>login\<close>; \<open>Inl e\<close> is an exception that
  reaches the handler of \<^verbatim>\<open>except Exception\<close>. In the first branch the close after the
  prompt stands inside the inner \<^verbatim>\<open>try\<close>: when it raises, the bare \<^verbatim>\<open>except\<close> runs.
\<close>

definition login_step1_general ::
  "closes \<Rightarrow> browser \<Rightarrow> string \<Rightarrow> page \<Rightarrow> server \<Rightarrow> (string + LoginResponse) \<times> server" where
  "login_step1_general C B em page s0 =
     (case enter_email B em s0 of
        (Inl e, s1) \<Rightarrow> (Inl e, s1)
      | (Inr _, s1) \<Rightarrow>
         (case then_do (wait_for_selector B code_prompt s1) (\<lambda>_ s2. close_page C 0 page s2) of
            (Inr _, s3) \<Rightarrow>
              (Inr \<lparr>status = ''verification_required'',
                    message = ''Check your email for verification code'',
                    session_active = False\<rparr>, s3)
          | (Inl _, s3) \<Rightarrow>
             (case close_page C 1 page s3 of
                (Inr _, s4) \<Rightarrow>
                  (Inr \<lparr>status = ''error'',
                        message = ''Failed to reach verification screen'',
                        session_active = False\<rparr>, s4)
              | (Inl e, s4) \<Rightarrow> (Inl e, s4))))"

definition login_step2_general ::
  "closes \<Rightarrow> browser \<Rightarrow> string \<Rightarrow> string \<Rightarrow> page \<Rightarrow> server \<Rightarrow> (string + LoginResponse) \<times> server" where
  "login_step2_general C B em vc page s0 =
     (case enter_code B em vc s0 of
        (Inl e, s1) \<Rightarrow> (Inl e, s1)
      | (Inr _, s1) \<Rightarrow>
         (let current_url = url_r B page 0 in
          if contains ''claude.ai/chat'' current_url \<or> contains ''claude.ai/new'' current_url then
            (Inr \<lparr>status = ''success'',
                  message = ''Successfully logged in to Claude'',
                  session_active = True\<rparr>, s1)
          else
            (case close_page C 2 page s1 of
               (Inr _, s2) \<Rightarrow>
                 (Inr \<lparr>status = ''failed'',
                       message = ''Login failed - please check credentials'',
                       session_active = False\<rparr>, s2)
             | (Inl e, s2) \<Rightarrow> (Inl e, s2))))"

text \<open>
  \<^verbatim>\<open>login\<close> with its handler: the page is closed, then \<^verbatim>\<open>HTTPException(500, str(e))\<close>
  is raised. When that close raises, its exception leaves the handler instead.
\<close>

definition login_general ::
  "closes \<Rightarrow> browser \<Rightarrow> LoginRequest \<Rightarrow> server \<Rightarrow> (py_exception + LoginResponse) \<times> server" where
  "login_general C B request s =
     (case browser_context s of
        None \<Rightarrow>
          (Inl (Http (HTTPException 500
             (CHR 0x27 # ''NoneType' object has no attribute 'new_page'' @ [CHR 0x27]))), s)
      | Some c \<Rightarrow>
         (case new_page B c s of
            (Inl e, s0) \<Rightarrow> (Inl (Http (HTTPException 500 e)), s0)
          | (Inr page, s0) \<Rightarrow>
             (case (case verification_code request of
                      None \<Rightarrow> login_step1_general C B (email request) page s0
                    | Some vc \<Rightarrow>
                        if vc = [] then login_step1_general C B (email request) page s0
                        else login_step2_general C B (email request) vc page s0) of
                (Inr r, s1) \<Rightarrow> (Inr r, s1)
              | (Inl e, s1) \<Rightarrow>
                 (case close_page C 3 page s1 of
                    (Inl e', s2) \<Rightarrow> (Inl (Other e'), s2)
                  | (Inr _, s2) \<Rightarrow> (Inl (Http (HTTPException 500 e)), s2)))))"

subsection \<open>\<^verbatim>\<open>authorize_oauth\<close>\<close>

text \<open>
  The parts of the \<^verbatim>\<open>try\<close> block of \<^verbatim>\<open>authorize_oauth\<close>; \<open>Inl\<close> is an exception that
  reaches the two handlers of the block.
\<close>

definition button_not_found_general ::
  "closes \<Rightarrow> browser \<Rightarrow> page list \<Rightarrow> page \<Rightarrow> server \<Rightarrow> (py_exception + OAuthResponse) \<times> server" where
  "button_not_found_general C B pgs page s =
     (case text_content B ''body'' s of
        (Inl e, s1) \<Rightarrow> (Inl (Other e), s1)
      | (Inr None, s1) \<Rightarrow> (Inl (Other (CHR 0x27 # ''NoneType' object is not subscriptable'')), s1)
      | (Inr (Some page_text), s1) \<Rightarrow>
         (case close_if_opened C 1 pgs page s1 of
            (Inl e, s2) \<Rightarrow> (Inl (Other e), s2)
          | (Inr _, s2) \<Rightarrow> (Inr (oauth_failure B no_button), s2)))"

definition extraction_failed ::
  "closes \<Rightarrow> browser \<Rightarrow> page list \<Rightarrow> page \<Rightarrow> server \<Rightarrow> (py_exception + OAuthResponse) \<times> server" where
  "extraction_failed C B pgs page s =
     (case close_if_opened C 2 pgs page s of
        (Inl e, s1) \<Rightarrow> (Inl (Other e), s1)
      | (Inr _, s1) \<Rightarrow> (Inr (oauth_failure B not_extracted), s1))"

definition extract_code_general ::
  "closes \<Rightarrow> browser \<Rightarrow> page list \<Rightarrow> page \<Rightarrow> server \<Rightarrow> (py_exception + OAuthResponse) \<times> server" where
  "extract_code_general C B pgs page s =
     (let current_url = url_r B page 1 in
      if contains ''code='' current_url then
        (case index_py (py_split ''code='' current_url) 1 of
           Inl e \<Rightarrow> (Inl (Other e), s)
         | Inr after \<Rightarrow>
            (case index_py (py_split ''&'' after) 0 of
               Inl e \<Rightarrow> (Inl (Other e), s)
             | Inr c \<Rightarrow> (Inr (oauth_success B c), s)))
      else
        (case code_from_elements B code_selectors s of
           (Some c, s1) \<Rightarrow> (Inr (oauth_success B c), s1)
         | (None, s1) \<Rightarrow>
            (case page_content B s1 of
               (Inl _, s2) \<Rightarrow> extraction_failed C B pgs page s2
             | (Inr html, s2) \<Rightarrow>
                (case code_from_patterns B code_patterns html of
                   Some c \<Rightarrow> (Inr (oauth_success B c), s2)
                 | None \<Rightarrow> extraction_failed C B pgs page s2))))"

definition click_and_extract_general ::
  "closes \<Rightarrow> browser \<Rightarrow> page list \<Rightarrow> page \<Rightarrow> server \<Rightarrow> (py_exception + OAuthResponse) \<times> server" where
  "click_and_extract_general C B pgs page s =
     (case click_authorize B authorize_selectors s of
        (False, s1) \<Rightarrow> button_not_found_general C B pgs page s1
      | (True, s1) \<Rightarrow>
         (case wait_for_load_state B 1 s1 of
            (Inl e, s2) \<Rightarrow> (Inl (Other e), s2)
          | (Inr _, s2) \<Rightarrow> extract_code_general C B pgs page s2))"

definition authorize_try ::
  "closes \<Rightarrow> browser \<Rightarrow> OAuthRequest \<Rightarrow> page list \<Rightarrow> page \<Rightarrow> server \<Rightarrow>
     (py_exception + OAuthResponse) \<times> server" where
  "authorize_try C B request pgs page s =
     (case then_do (page_goto B (oauth_url request) s) (\<lambda>_ s1. wait_for_load_state B 0 s1) of
        (Inl e, s2) \<Rightarrow> (Inl (Other e), s2)
      | (Inr _, s2) \<Rightarrow>
         (if contains ''login'' (url_r B page 0) then
            (case close_if_opened C 0 pgs page s2 of
               (Inl e, s3) \<Rightarrow> (Inl (Other e), s3)
             | (Inr _, s3) \<Rightarrow>
                 (Inl (Http (HTTPException 401 ''Not logged in. Please use /login endpoint first.'')), s3))
          else click_and_extract_general C B pgs page s2))"

text \<open>
  The two handlers of the block: an \<^verbatim>\<open>HTTPException\<close> is raised again; any other
  exception is answered with \<^verbatim>\<open>success=False\<close> and its text, after the handler has
  closed a page it opened. When that close raises, its exception leaves the handler.
\<close>

definition authorize_on_page_general ::
  "closes \<Rightarrow> browser \<Rightarrow> OAuthRequest \<Rightarrow> page list \<Rightarrow> page \<Rightarrow> server \<Rightarrow>
     (py_exception + OAuthResponse) \<times> server" where
  "authorize_on_page_general C B request pgs page s =
     (case authorize_try C B request pgs page s of
        (Inr r, s1) \<Rightarrow> (Inr r, s1)
      | (Inl (Http h), s1) \<Rightarrow> (Inl (Http h), s1)
      | (Inl (Other e), s1) \<Rightarrow>
         (case close_if_opened C 3 pgs page s1 of
            (Inl e', s2) \<Rightarrow> (Inl (Other e'), s2)
          | (Inr _, s2) \<Rightarrow> (Inr (oauth_failure B e), s2)))"

definition authorize_oauth_general ::
  "closes \<Rightarrow> browser \<Rightarrow> OAuthRequest \<Rightarrow> server \<Rightarrow> (py_exception + OAuthResponse) \<times> server" where
  "authorize_oauth_general C B request s =
     (case browser_context s of
        None \<Rightarrow>
          (Inr (oauth_failure B (CHR 0x27 # ''NoneType' object has no attribute 'pages'' @ [CHR 0x27])), s)
      | Some c \<Rightarrow>
         (case pages c of
            page # _ \<Rightarrow> authorize_on_page_general C B request (pages c) page s
          | [] \<Rightarrow>
             (case new_page B c s of
                (Inl e, s0) \<Rightarrow> (Inr (oauth_failure B e), s0)
              | (Inr page, s0) \<Rightarrow> authorize_on_page_general C B request [] page s0)))"

subsection \<open>The two routes\<close>

definition post_login_general ::
  "string \<Rightarrow> closes \<Rightarrow> browser \<Rightarrow> string option \<Rightarrow> LoginRequest \<Rightarrow> server \<Rightarrow>
     (py_exception + LoginResponse) \<times> server" where
  "post_login_general API_KEY C B hdr request s =
     (case verify_api_key API_KEY hdr of
        Inl h \<Rightarrow> (Inl (Http h), s)
      | Inr _ \<Rightarrow> login_general C B request s)"

definition post_oauth_authorize_general ::
  "string \<Rightarrow> closes \<Rightarrow> browser \<Rightarrow> string option \<Rightarrow> OAuthRequest \<Rightarrow> server \<Rightarrow>
     (py_exception + OAuthResponse) \<times> server" where
  "post_oauth_authorize_general API_KEY C B hdr request s =
     (case verify_api_key API_KEY hdr of
        Inl h \<Rightarrow> (Inl (Http h), s)
      | Inr _ \<Rightarrow> authorize_oauth_general C B request s)"

text \<open>
  How an answer of the handlers above, in which every close returns, reads among the
  answers of this section.
\<close>

definition as_general :: "(http_exception + 'a) \<times> server \<Rightarrow> (py_exception + 'a) \<times> server" where
  "as_general m = (case m of (Inl h, s) \<Rightarrow> (Inl (Http h), s) | (Inr r, s) \<Rightarrow> (Inr r, s))"

section \<open>Browser scripts for concrete runs\<close>

text \<open>
  A browser in which every call returns, no element is visible, and every page
  shows a chat URL.
\<close>

definition idle_browser :: browser where
  "idle_browser =
     \<lparr>new_page_r = Inr (), goto_r = (\<lambda>_. Inr ()), load_state_r = (\<lambda>_. Inr ()),
      url_r = (\<lambda>_ _. ''https://claude.ai/chat/7''), fill_r = (\<lambda>_ _. Inr ()),
      click_r = (\<lambda>_. Inr ()), wait_for_selector_r = (\<lambda>_. Inr ()),
      locator_all_r = (\<lambda>_. Inr 6), fill_nth_r = (\<lambda>_ _. Inr ()),
      is_visible_r = (\<lambda>_. Inr False), text_content_r = (\<lambda>_. Inr None),
      content_r = Inr [], re_search = (\<lambda>_ _. None), uuid4_r = ''id'', utcnow_r = 0\<rparr>"

text \<open>The answer of the key check when it fails.\<close>

definition unauthorized :: http_exception where
  "unauthorized = HTTPException 401 ''Invalid API key''"

text \<open>The server right after startup: a context with no page, and no call made yet.\<close>

definition fresh_server :: server where
  "fresh_server = \<lparr>browser_context = Some \<lparr>pages = [], fresh = 0\<rparr>, trace = []\<rparr>"




text \<open>
  The consent page shows an \<^verbatim>\<open>Allow\<close> button; the click on it leads to a callback URL
  whose code is percent-encoded.
\<close>

definition redirect_browser :: browser where
  "redirect_browser =
     idle_browser
       \<lparr>url_r := (\<lambda>p k. if k = 0 then ''https://claude.ai/oauth/authorize?client_id=app''
                         else ''https://app.example/cb?code=a%2Fb&state=1''),
        is_visible_r := (\<lambda>sel. Inr (sel = ''button:has-text(\"Allow\")''))\<rparr>"

definition consent_request :: OAuthRequest where
  "consent_request = \<lparr>oauth_url = ''https://claude.ai/oauth/authorize?client_id=app''\<rparr>"




text \<open>A server whose context holds one open page, left there by a login.\<close>

definition logged_in_server :: server where
  "logged_in_server = \<lparr>browser_context = Some \<lparr>pages = [4], fresh = 5\<rparr>, trace = []\<rparr>"





text \<open>The network is down: every navigation raises.\<close>

definition offline_browser :: browser where
  "offline_browser = idle_browser\<lparr>goto_r := (\<lambda>_. Inl ''net::ERR_INTERNET_DISCONNECTED'')\<rparr>"

text \<open>Every \<^verbatim>\<open>page.close()\<close> raises.\<close>

definition failing_closes :: closes where
  "failing_closes = (\<lambda>_. Inl ''Target.closeTarget failed'')"

section \<open>Notions used to state the properties\<close>

subsection \<open>Calls whose exception reaches the handler of \<^verbatim>\<open>login\<close>\<close>

text \<open>\<open>raised r\<close> is the text of the exception when the call answered \<open>r\<close> raised.\<close>

definition raised :: "string + 'a \<Rightarrow> string option" where
  "raised r = (case r of Inl e \<Rightarrow> Some e | Inr _ \<Rightarrow> None)"

text \<open>The first exception in a sequence of calls, if any of them raises.\<close>

fun first_raised :: "string option list \<Rightarrow> string option" where
  "first_raised [] = None"
| "first_raised (Some e # rs) = Some e"
| "first_raised (None # rs) = first_raised rs"

definition unhandled :: "string option \<Rightarrow> string + unit" where
  "unhandled r = (case r of Some e \<Rightarrow> Inl e | None \<Rightarrow> Inr ())"

text \<open>
  The boxes that receive a digit: digit \<open>k\<close> of the code goes into box \<open>k\<close>, for the
  boxes \<open>i \<le> k < n\<close> (one digit per box, as far as boxes and digits last).
\<close>

definition digit_fills :: "nat \<Rightarrow> nat \<Rightarrow> string \<Rightarrow> (nat \<times> char) list" where
  "digit_fills n i ds = take (n - i) (enumerate i ds)"

text \<open>
  The calls of \<^verbatim>\<open>login\<close> that no inner handler protects, in the order they are made:
  those that submit the email, those that enter the code, and all of them for one
  request. The wait for the verification prompt of the first call is not among them.
\<close>

definition email_calls :: "browser \<Rightarrow> string \<Rightarrow> string option list" where
  "email_calls B em =
     [raised (goto_r B login_url), raised (load_state_r B 0),
      raised (fill_r B email_input em), raised (click_r B continue_button)]"

definition code_calls :: "browser \<Rightarrow> string \<Rightarrow> string option list" where
  "code_calls B vc =
     [raised (wait_for_selector_r B numeric_input), raised (locator_all_r B numeric_input)] @
     (case locator_all_r B numeric_input of
        Inl _ \<Rightarrow> []
      | Inr n \<Rightarrow> map (\<lambda>(k, d). raised (fill_nth_r B k d)) (digit_fills n 0 vc) @
                 [raised (load_state_r B 1)])"

definition login_calls :: "browser \<Rightarrow> LoginRequest \<Rightarrow> string option list" where
  "login_calls B request =
     raised (new_page_r B) # email_calls B (email request) @
     (case verification_code request of
        None \<Rightarrow> []
      | Some vc \<Rightarrow> if vc = [] then [] else code_calls B vc)"

text \<open>The two answers of the first call of the protocol, and the two of the second.\<close>

definition step1_response :: "browser \<Rightarrow> LoginResponse" where
  "step1_response B =
     (case wait_for_selector_r B code_prompt of
        Inr _ \<Rightarrow> \<lparr>status = ''verification_required'',
                  message = ''Check your email for verification code'', session_active = False\<rparr>
      | Inl _ \<Rightarrow> \<lparr>status = ''error'',
                  message = ''Failed to reach verification screen'', session_active = False\<rparr>)"

definition authenticated_url :: "string \<Rightarrow> bool" where
  "authenticated_url url = (contains ''claude.ai/chat'' url \<or> contains ''claude.ai/new'' url)"

definition step2_response :: "browser \<Rightarrow> page \<Rightarrow> LoginResponse" where
  "step2_response B p =
     (if authenticated_url (url_r B p 0)
      then \<lparr>status = ''success'', message = ''Successfully logged in to Claude'',
            session_active = True\<rparr>
      else \<lparr>status = ''failed'', message = ''Login failed - please check credentials'',
            session_active = False\<rparr>)"

subsection \<open>The authorize button\<close>

text \<open>
  A selector is shown when its visibility test answers \<^verbatim>\<open>True\<close>, and clickable when,
  moreover, the click on it returns.
\<close>

definition shown :: "browser \<Rightarrow> string \<Rightarrow> bool" where
  "shown B sel = (is_visible_r B sel = Inr True)"

definition clickable :: "browser \<Rightarrow> string \<Rightarrow> bool" where
  "clickable B sel = (shown B sel \<and> click_r B sel = Inr ())"

text \<open>The calls of the loop over the selectors of the authorize button.\<close>

fun click_actions :: "browser \<Rightarrow> string list \<Rightarrow> action list" where
  "click_actions B [] = []"
| "click_actions B (sel # sels) =
     IsVisible sel #
     (if shown B sel then Click sel # (if clickable B sel then [] else click_actions B sels)
      else click_actions B sels)"

text \<open>The selectors clicked in a sequence of calls, in order.\<close>

definition clicks :: "action list \<Rightarrow> string list" where
  "clicks acts = List.map_filter (\<lambda>a. case a of Click sel \<Rightarrow> Some sel | _ \<Rightarrow> None) acts"


subsection \<open>The code in the URL\<close>

text \<open>The text of \<open>s\<close> before the leftmost occurrence of \<open>sep\<close>; all of \<open>s\<close> without one.\<close>

definition before_py :: "string \<Rightarrow> string \<Rightarrow> string" where
  "before_py sep s = (case partition_py sep s of None \<Rightarrow> s | Some (a, _) \<Rightarrow> a)"

text \<open>
  The text after the leftmost \<^verbatim>\<open>code=\<close> of a URL, cut at the next \<^verbatim>\<open>code=\<close> and then at
  the first \<^verbatim>\<open>&\<close>; nothing is decoded.
\<close>

definition code_in_url :: "string \<Rightarrow> string option" where
  "code_in_url url =
     (case partition_py ''code='' url of
        None \<Rightarrow> None
      | Some (_, after) \<Rightarrow> Some (takeWhile (\<lambda>x. x \<noteq> CHR ''&'') (before_py ''code='' after)))"

text \<open>
  Percent-decoding of a URL component, which the specification calls URL-decoding:
  \<^verbatim>\<open>%XY\<close> with two hexadecimal digits stands for the character with that code. The
  handler has no such step; the definition serves to compare.
\<close>

fun hex_digit :: "char \<Rightarrow> nat option" where
  "hex_digit c =
     (let n = of_char c in
      if 48 \<le> n \<and> n \<le> 57 then Some (n - 48)
      else if 65 \<le> n \<and> n \<le> 70 then Some (n - 55)
      else if 97 \<le> n \<and> n \<le> 102 then Some (n - 87)
      else None)"

fun url_decode :: "string \<Rightarrow> string" where
  "url_decode [] = []"
| "url_decode [c] = [c]"
| "url_decode [c, d] = [c, d]"
| "url_decode (c # d # e # cs) =
     (case (c = CHR ''%'', hex_digit d, hex_digit e) of
        (True, Some h, Some l) \<Rightarrow> char_of (16 * h + l) # url_decode cs
      | _ \<Rightarrow> c # url_decode (d # e # cs))"

subsection \<open>The three extraction strategies\<close>

text \<open>The first value in a list of attempts.\<close>

fun first_some :: "'a option list \<Rightarrow> 'a option" where
  "first_some [] = None"
| "first_some (Some x # rs) = Some x"
| "first_some (None # rs) = first_some rs"

text \<open>
  What a code-display element yields: its stripped text, when the element is shown and
  its text is longer than 10.
\<close>

definition element_code :: "browser \<Rightarrow> string \<Rightarrow> string option" where
  "element_code B sel =
     (if shown B sel then
        (case text_content_r B sel of
           Inr (Some t) \<Rightarrow> if 10 < length t then Some (py_strip t) else None
         | _ \<Rightarrow> None)
      else None)"

text \<open>The calls of the loop over the code-display elements.\<close>

fun element_actions :: "browser \<Rightarrow> string list \<Rightarrow> action list" where
  "element_actions B [] = []"
| "element_actions B (sel # sels) =
     IsVisible sel #
     (if shown B sel
      then TextContent sel # (if element_code B sel = None then element_actions B sels else [])
      else element_actions B sels)"

text \<open>
  The strategies, each a function of what the browser shows: (a) the code in the URL
  read after the click, (b) the first code-display element that yields a text, (c) the
  first pattern that matches the page's HTML, when the HTML can be read.
\<close>

definition strategy_url :: "browser \<Rightarrow> page \<Rightarrow> string option" where
  "strategy_url B p = code_in_url (url_r B p 1)"

definition strategy_elements :: "browser \<Rightarrow> string option" where
  "strategy_elements B = first_some (map (element_code B) code_selectors)"

definition strategy_patterns :: "browser \<Rightarrow> string option" where
  "strategy_patterns B =
     (case content_r B of
        Inl _ \<Rightarrow> None
      | Inr html \<Rightarrow> first_some (map (\<lambda>pattern. re_search B pattern html) code_patterns))"

text \<open>
  The calls on the browser that the extraction makes: none when the URL has the code,
  no read of the HTML when an element yields it.
\<close>

definition extraction_calls :: "browser \<Rightarrow> page \<Rightarrow> action list" where
  "extraction_calls B p =
     (case strategy_url B p of
        Some _ \<Rightarrow> []
      | None \<Rightarrow>
          element_actions B code_selectors @
          (case strategy_elements B of Some _ \<Rightarrow> [] | None \<Rightarrow> [Content]))"

text \<open>The first strategy that yields a code decides; without one the extraction fails.\<close>

definition extraction_response :: "browser \<Rightarrow> page \<Rightarrow> OAuthResponse" where
  "extraction_response B p =
     (case first_some [strategy_url B p, strategy_elements B, strategy_patterns B] of
        Some c \<Rightarrow> oauth_success B c
      | None \<Rightarrow> oauth_failure B not_extracted)"

subsection \<open>The course of an authorization\<close>

text \<open>The page the handler works on: the first open page, or the one it opens.\<close>

definition page_used :: "BrowserContext \<Rightarrow> page" where
  "page_used c = (case pages c of p # _ \<Rightarrow> p | [] \<Rightarrow> fresh c)"

text \<open>The calls up to the login test on the URL, and the server once they have returned.\<close>

definition opening_calls :: "browser \<Rightarrow> OAuthRequest \<Rightarrow> BrowserContext \<Rightarrow> string option list" where
  "opening_calls B request c =
     (if pages c = [] then [raised (new_page_r B)] else []) @
     [raised (goto_r B (oauth_url request)), raised (load_state_r B 0)]"

definition navigated :: "OAuthRequest \<Rightarrow> BrowserContext \<Rightarrow> server \<Rightarrow> server" where
  "navigated request c s =
     s\<lparr>browser_context :=
         Some (if pages c = [] then c\<lparr>pages := [fresh c], fresh := Suc (fresh c)\<rparr> else c),
       trace :=
         trace s @ (if pages c = [] then [NewPage] else []) @
         [Goto (oauth_url request), WaitForLoadState]\<rparr>"

text \<open>
  The error reported when no click returned: the fixed message when the body's text
  could be read for the log, the exception's text otherwise.
\<close>

definition body_error :: "browser \<Rightarrow> string" where
  "body_error B =
     (case text_content_r B ''body'' of
        Inl e \<Rightarrow> e
      | Inr None \<Rightarrow> CHR 0x27 # ''NoneType' object is not subscriptable''
      | Inr (Some _) \<Rightarrow> no_button)"

text \<open>Some click on a candidate returned.\<close>

definition clicked :: "browser \<Rightarrow> bool" where
  "clicked B = list_ex (clickable B) authorize_selectors"


text \<open>
  The exception of the branch taken when no click returned: that of the read of the
  body's text, or the \<^verbatim>\<open>TypeError\<close> of the slice when the text is \<^verbatim>\<open>None\<close>.
\<close>

definition body_read :: "browser \<Rightarrow> string option" where
  "body_read B =
     (case text_content_r B ''body'' of
        Inl e \<Rightarrow> Some e
      | Inr None \<Rightarrow> Some (CHR 0x27 # ''NoneType' object is not subscriptable'')
      | Inr (Some _) \<Rightarrow> None)"

text \<open>
  The calls of \<^verbatim>\<open>authorize_oauth\<close> whose exception reaches the handler of
  \<^verbatim>\<open>except Exception\<close>, in the order they are made. The loops over the selectors and
  the read of the HTML have handlers of their own and are not among them.
\<close>

definition authorize_calls :: "browser \<Rightarrow> OAuthRequest \<Rightarrow> BrowserContext \<Rightarrow> string option list" where
  "authorize_calls B request c =
     opening_calls B request c @
     (if contains ''login'' (url_r B (page_used c) 0) then []
      else if clicked B then [raised (load_state_r B 1)]
      else [body_read B])"

subsection \<open>Calls that change the set of pages\<close>

text \<open>
  \<open>undisturbed s s'\<close>: from \<open>s\<close> to \<open>s'\<close> the browser context is the same, and the
  calls made in between neither open nor close a page.
\<close>

definition opens_or_closes :: "action \<Rightarrow> bool" where
  "opens_or_closes a = (case a of NewPage \<Rightarrow> True | Close _ \<Rightarrow> True | _ \<Rightarrow> False)"

definition undisturbed :: "server \<Rightarrow> server \<Rightarrow> bool" where
  "undisturbed s s' =
     (browser_context s' = browser_context s \<and>
      (\<exists>acts. trace s' = trace s @ acts \<and> \<not> list_ex opens_or_closes acts))"

section \<open>Auxiliary facts\<close>

subsection \<open>Sequencing and the trace\<close>

lemma then_do_Inl [simp]: "then_do (Inl e, s) f = (Inl e, s)"
  by (simp add: then_do_def)

lemma then_do_Inr [simp]: "then_do (Inr x, s) f = f x s"
  by (simp add: then_do_def)

lemmas browser_calls =
  call_def page_goto_def wait_for_load_state_def page_fill_def click_def
  wait_for_selector_def locator_all_def fill_nth_def is_visible_def text_content_def
  page_content_def

lemma then_do_fst:
  "fst (then_do m f) = (case fst m of Inl e \<Rightarrow> Inl e | Inr x \<Rightarrow> fst (f x (snd m)))"
  by (cases m) (simp add: then_do_def split: sum.splits)


lemma call_context [simp]: "browser_context (snd (call a r s)) = browser_context s"
  by (simp add: call_def)

lemma call_fst [simp]: "fst (call a r s) = r"
  by (simp add: call_def)

subsection \<open>The login flow\<close>

lemma first_raised_append:
  "first_raised (xs @ ys) = (case first_raised xs of Some e \<Rightarrow> Some e | None \<Rightarrow> first_raised ys)"
  by (induction xs rule: first_raised.induct) simp_all

lemma enter_email_result:
  "fst (enter_email B em s) = unhandled (first_raised (email_calls B em))"
  by (simp add: enter_email_def email_calls_def then_do_def browser_calls raised_def unhandled_def
        split: sum.splits)

lemma enter_email_context [simp]:
  "browser_context (snd (enter_email B em s)) = browser_context s"
  by (simp add: enter_email_def then_do_def browser_calls split: sum.splits)

lemma digit_fills_Cons:
  "digit_fills n i (d # ds) = (if i < n then (i, d) # digit_fills n (Suc i) ds else [])"
proof (cases "i < n")
  case True
  then obtain m where "n - i = Suc m" "n - Suc i = m"
    by (cases "n - i") auto
  with True show ?thesis by (simp add: digit_fills_def)
next
  case False
  then show ?thesis by (simp add: digit_fills_def)
qed

lemma digit_fills_beyond: "\<not> i < n \<Longrightarrow> digit_fills n (Suc i) ds = []"
  by (simp add: digit_fills_def)

lemma fill_digits_result:
  "fst (fill_digits B n i ds s) =
     unhandled (first_raised (map (\<lambda>(k, d). raised (fill_nth_r B k d)) (digit_fills n i ds)))"
proof (induction ds arbitrary: i s)
  case Nil
  then show ?case by (simp add: digit_fills_def unhandled_def)
next
  case (Cons d ds)
  show ?case
  proof (cases "i < n")
    case True
    then show ?thesis
      by (cases "fill_nth_r B i d")
        (simp_all add: digit_fills_Cons Cons.IH fill_nth_def call_def raised_def unhandled_def)
  next
    case False
    then show ?thesis
      using Cons.IH [of "Suc i" s] by (simp add: digit_fills_Cons digit_fills_beyond)
  qed
qed

lemma fill_digits_context [simp]:
  "browser_context (snd (fill_digits B n i ds s)) = browser_context s"
  by (induction ds arbitrary: i s) (simp_all add: then_do_def fill_nth_def call_def split: sum.splits)


lemma enter_code_result:
  "fst (enter_code B em vc s) = unhandled (first_raised (email_calls B em @ code_calls B vc))"
proof (cases "first_raised (email_calls B em)")
  case (Some e)
  then show ?thesis
    by (simp add: enter_code_def then_do_fst enter_email_result first_raised_append unhandled_def)
next
  case None
  show ?thesis
  proof (cases "wait_for_selector_r B numeric_input")
    case (Inl e)
    with None show ?thesis
      by (simp add: enter_code_def then_do_fst enter_email_result first_raised_append
            unhandled_def code_calls_def raised_def wait_for_selector_def)
  next
    case ok: (Inr u)
    show ?thesis
    proof (cases "locator_all_r B numeric_input")
      case (Inl e)
      with None ok show ?thesis
        by (simp add: enter_code_def then_do_fst enter_email_result first_raised_append
              unhandled_def code_calls_def raised_def wait_for_selector_def locator_all_def)
    next
      case (Inr n)
      with None ok show ?thesis
        by (simp add: enter_code_def then_do_fst enter_email_result first_raised_append
              unhandled_def code_calls_def raised_def wait_for_selector_def locator_all_def
              fill_digits_result wait_for_load_state_def
              split: option.splits sum.splits)
    qed
  qed
qed

lemma login_step1_fst:
  "fst (login_step1 B em p s) =
     (case first_raised (email_calls B em) of
        Some e \<Rightarrow> Inl (HTTPException 500 e)
      | None \<Rightarrow> Inr (step1_response B))"
proof -
  obtain r s1 where run: "enter_email B em s = (r, s1)"
    by (cases "enter_email B em s")
  with enter_email_result [of B em s] have r: "r = unhandled (first_raised (email_calls B em))"
    by simp
  show ?thesis
    by (simp add: login_step1_def run r unhandled_def step1_response_def wait_for_selector_def
          call_def split: option.splits sum.splits)
qed

lemma login_step2_fst:
  "fst (login_step2 B em vc p s) =
     (case first_raised (email_calls B em @ code_calls B vc) of
        Some e \<Rightarrow> Inl (HTTPException 500 e)
      | None \<Rightarrow> Inr (step2_response B p))"
proof -
  obtain r s1 where run: "enter_code B em vc s = (r, s1)"
    by (cases "enter_code B em vc s")
  with enter_code_result [of B em vc s]
  have r: "r = unhandled (first_raised (email_calls B em @ code_calls B vc))"
    by simp
  show ?thesis
    by (simp add: login_step2_def run r unhandled_def step2_response_def authenticated_url_def
          split: option.splits)
qed

lemma login_fst:
  assumes "browser_context s = Some c"
  shows "fst (login B request s) =
     (case first_raised (login_calls B request) of
        Some e \<Rightarrow> Inl (HTTPException 500 e)
      | None \<Rightarrow>
          Inr (case verification_code request of
                 None \<Rightarrow> step1_response B
               | Some vc \<Rightarrow> if vc = [] then step1_response B else step2_response B (fresh c)))"
proof (cases "new_page_r B")
  case (Inl e)
  with assms show ?thesis
    by (simp add: login_def new_page_def call_def login_calls_def raised_def)
next
  case (Inr u)
  with assms show ?thesis
    by (simp add: login_def new_page_def call_def login_calls_def raised_def login_step1_fst
          login_step2_fst first_raised_append split: option.splits)
qed



subsection \<open>The click on the authorize button\<close>

lemma click_authorize_run:
  "click_authorize B sels s =
     (list_ex (clickable B) sels, s\<lparr>trace := trace s @ click_actions B sels\<rparr>)"
proof (induction sels arbitrary: s)
  case Nil
  then show ?case by simp
next
  case (Cons sel sels)
  show ?case
  proof (cases "is_visible_r B sel")
    case (Inl e)
    then show ?thesis
      by (simp add: Cons.IH is_visible_def call_def shown_def clickable_def)
  next
    case (Inr v)
    show ?thesis
    proof (cases v)
      case False
      with Inr show ?thesis
        by (simp add: Cons.IH is_visible_def call_def shown_def clickable_def)
    next
      case True
      with Inr show ?thesis
        by (cases "click_r B sel")
          (simp_all add: Cons.IH is_visible_def click_def call_def shown_def clickable_def)
    qed
  qed
qed

lemma clicks_simps [simp]:
  "clicks [] = []"
  "clicks (Click sel # acts) = sel # clicks acts"
  "clicks (IsVisible sel # acts) = clicks acts"
  by (simp_all add: clicks_def List.map_filter_simps)



subsection \<open>Splitting a URL\<close>

lemma contains_partition_py: "contains sep s \<longleftrightarrow> partition_py sep s \<noteq> None"
  by (induction s) auto

lemma partition_py_parts:
  "partition_py sep s = Some (a, b) \<Longrightarrow> s = a @ sep @ b"
proof (induction s arbitrary: a)
  case Nil
  then show ?case by (simp split: if_splits)
next
  case (Cons c cs)
  show ?case
  proof (cases "prefix sep (c # cs)")
    case True
    then obtain r where r: "c # cs = sep @ r" by (auto simp add: prefix_def)
    from True Cons.prems have "a = []" "b = drop (length sep) (c # cs)" by auto
    with r show ?thesis by simp
  next
    case False
    with Cons.prems obtain a' where a': "partition_py sep cs = Some (a', b)" "a = c # a'"
      by auto
    with Cons.IH show ?thesis by simp
  qed
qed

lemma partition_py_leftmost:
  "partition_py sep s = Some (a, b) \<Longrightarrow> sep \<noteq> [] \<Longrightarrow> \<not> contains sep (a @ butlast sep)"
proof (induction s arbitrary: a)
  case Nil
  then show ?case by simp
next
  case (Cons c cs)
  show ?case
  proof (cases "prefix sep (c # cs)")
    case True
    with Cons.prems have "a = []" by simp
    moreover have "\<not> contains sep (butlast sep)"
    proof
      assume "contains sep (butlast sep)"
      then have "partition_py sep (butlast sep) \<noteq> None" by (simp add: contains_partition_py)
      then obtain x y where "partition_py sep (butlast sep) = Some (x, y)" by auto
      then have "butlast sep = x @ sep @ y" by (rule partition_py_parts)
      then have "length (butlast sep) = length x + length sep + length y" by (metis length_append add.assoc)
      with Cons.prems(2) show False by (cases sep rule: rev_cases) simp_all
    qed
    ultimately show ?thesis by simp
  next
    case False
    with Cons.prems obtain a' where a': "partition_py sep cs = Some (a', b)" "a = c # a'"
      by auto
    from a'(1) have cs: "cs = a' @ sep @ b" by (rule partition_py_parts)
    have "\<not> prefix sep (c # a' @ butlast sep)"
    proof
      assume p: "prefix sep (c # a' @ butlast sep)"
      have "prefix (c # a' @ butlast sep) (c # cs)"
        using cs Cons.prems(2) by (metis Cons_prefix_Cons append_butlast_last_id prefix_def append.assoc same_prefix_prefix)
      with p have "prefix sep (c # cs)" by (rule prefix_order.trans)
      with False show False by simp
    qed
    with Cons.IH [OF a'(1) Cons.prems(2)] a'(2) show ?thesis by simp
  qed
qed

lemma py_split_absent:
  "sep \<noteq> [] \<Longrightarrow> partition_py sep s = None \<Longrightarrow> py_split sep s = [s]"
  by (simp add: py_split.simps)

lemma py_split_present:
  "sep \<noteq> [] \<Longrightarrow> partition_py sep s = Some (a, b) \<Longrightarrow> py_split sep s = a # py_split sep b"
  by (simp add: py_split.simps)

lemma py_split_first:
  "sep \<noteq> [] \<Longrightarrow> index_py (py_split sep s) 0 = Inr (before_py sep s)"
  by (cases "partition_py sep s")
    (auto simp add: py_split_absent py_split_present index_py_def before_py_def)

lemma py_split_second:
  assumes "sep \<noteq> []" "partition_py sep s = Some (a, b)"
  shows "index_py (py_split sep s) 1 = Inr (before_py sep b)"
proof -
  from py_split_first [OF assms(1), of b]
  have "0 < length (py_split sep b)" "py_split sep b ! 0 = before_py sep b"
    by (auto simp add: index_py_def split: if_splits)
  with assms show ?thesis
    by (simp add: py_split_present index_py_def)
qed

lemma partition_py_char:
  "partition_py [c] s =
     (if c \<in> set s then Some (takeWhile (\<lambda>x. x \<noteq> c) s, tl (dropWhile (\<lambda>x. x \<noteq> c) s)) else None)"
  by (induction s) auto

lemma before_py_char: "before_py [c] s = takeWhile (\<lambda>x. x \<noteq> c) s"
proof (cases "c \<in> set s")
  case True
  then show ?thesis by (simp add: before_py_def partition_py_char)
next
  case False
  then have whole: "takeWhile (\<lambda>x. x \<noteq> c) s = s"
    by (intro takeWhile_eq_all_conv [THEN iffD2]) auto
  from False show ?thesis by (simp add: before_py_def partition_py_char whole)
qed

lemma code_in_url_split:
  assumes "contains ''code='' url"
  shows "\<exists>t c. index_py (py_split ''code='' url) 1 = Inr t \<and>
               index_py (py_split ''&'' t) 0 = Inr c \<and> code_in_url url = Some c"
proof -
  from assms obtain a b where ab: "partition_py ''code='' url = Some (a, b)"
    by (auto simp add: contains_partition_py)
  then have "index_py (py_split ''code='' url) 1 = Inr (before_py ''code='' b)"
    by (intro py_split_second) simp_all
  moreover have "index_py (py_split ''&'' (before_py ''code='' b)) 0 =
      Inr (takeWhile (\<lambda>x. x \<noteq> CHR ''&'') (before_py ''code='' b))"
    by (simp add: py_split_first before_py_char)
  ultimately show ?thesis using ab by (simp add: code_in_url_def)
qed

lemma code_in_url_None: "\<not> contains ''code='' url \<Longrightarrow> code_in_url url = None"
  by (cases "partition_py ''code='' url") (simp_all add: code_in_url_def contains_partition_py)

subsection \<open>The extraction and the course of an authorization\<close>

lemma code_from_elements_run:
  "code_from_elements B sels s =
     (first_some (map (element_code B) sels), s\<lparr>trace := trace s @ element_actions B sels\<rparr>)"
proof (induction sels arbitrary: s)
  case Nil
  then show ?case by simp
next
  case (Cons sel sels)
  show ?case
  proof (cases "shown B sel")
    case False
    then show ?thesis
      by (cases "is_visible_r B sel")
        (auto simp add: Cons.IH is_visible_def call_def shown_def element_code_def)
  next
    case True
    then have vis: "is_visible_r B sel = Inr True" by (simp add: shown_def)
    show ?thesis
    proof (cases "text_content_r B sel")
      case (Inl e)
      with True vis show ?thesis
        by (simp add: Cons.IH is_visible_def text_content_def call_def element_code_def)
    next
      case (Inr t)
      with True vis show ?thesis
        by (cases t)
          (auto simp add: Cons.IH is_visible_def text_content_def call_def element_code_def)
    qed
  qed
qed

lemma code_from_patterns_first:
  "code_from_patterns B patterns html = first_some (map (\<lambda>pattern. re_search B pattern html) patterns)"
  by (induction patterns) (simp_all split: option.splits)

lemma extract_code_run:
  "extract_code B pgs p s =
     (Inr (extraction_response B p),
      (if first_some [strategy_url B p, strategy_elements B, strategy_patterns B] = None
       then close_unless_reused pgs p else (\<lambda>s. s))
        (s\<lparr>trace := trace s @ extraction_calls B p\<rparr>))"
proof (cases "contains ''code='' (url_r B p 1)")
  case True
  from code_in_url_split [OF True] obtain t c where
    "index_py (py_split ''code='' (url_r B p 1)) 1 = Inr t"
    "index_py (py_split ''&'' t) 0 = Inr c" "code_in_url (url_r B p 1) = Some c"
    by blast
  with True show ?thesis
    by (simp add: extract_code_def extraction_response_def extraction_calls_def strategy_url_def)
next
  case False
  then have url: "strategy_url B p = None"
    by (simp add: strategy_url_def code_in_url_None)
  show ?thesis
  proof (cases "strategy_elements B")
    case (Some c)
    with False url show ?thesis
      by (simp add: extract_code_def extraction_response_def extraction_calls_def
            code_from_elements_run strategy_elements_def [symmetric])
  next
    case None
    with False url show ?thesis
      by (cases "content_r B")
        (simp_all add: extract_code_def extraction_response_def extraction_calls_def
          code_from_elements_run strategy_elements_def [symmetric] page_content_def call_def
          strategy_patterns_def code_from_patterns_first split: option.splits)
  qed
qed

lemma not_clicked_run:
  assumes "\<not> clicked B"
  shows "click_and_extract B pgs p s =
     (Inr (oauth_failure B (body_error B)),
      close_unless_reused pgs p (s\<lparr>trace := trace s @ click_actions B authorize_selectors @ [TextContent ''body'']\<rparr>))"
  using assms
  by (simp add: click_and_extract_def click_authorize_run clicked_def button_not_found_def
        text_content_def call_def body_error_def split: sum.splits option.splits)

lemma clicked_wait_raises:
  assumes "clicked B" "load_state_r B 1 = Inl e"
  shows "click_and_extract B pgs p s =
     (Inr (oauth_failure B e),
      close_unless_reused pgs p (s\<lparr>trace := trace s @ click_actions B authorize_selectors @ [WaitForLoadState]\<rparr>))"
  using assms
  by (simp add: click_and_extract_def click_authorize_run clicked_def wait_for_load_state_def call_def)

lemma clicked_run:
  assumes "clicked B" "load_state_r B 1 = Inr ()"
  shows "click_and_extract B pgs p s =
     extract_code B pgs p (s\<lparr>trace := trace s @ click_actions B authorize_selectors @ [WaitForLoadState]\<rparr>)"
  using assms
  by (simp add: click_and_extract_def click_authorize_run clicked_def wait_for_load_state_def call_def)

lemma authorize_on_page_raises:
  assumes "first_raised [raised (goto_r B (oauth_url request)), raised (load_state_r B 0)] = Some e"
  shows "fst (authorize_on_page B request pgs p s) = Inr (oauth_failure B e)"
  using assms
  by (cases "goto_r B (oauth_url request)"; cases "load_state_r B 0")
    (simp_all add: authorize_on_page_def page_goto_def wait_for_load_state_def call_def raised_def)

lemma authorize_on_page_run:
  assumes "first_raised [raised (goto_r B (oauth_url request)), raised (load_state_r B 0)] = None"
  shows "authorize_on_page B request pgs p s =
     (if contains ''login'' (url_r B p 0)
      then (Inl (HTTPException 401 ''Not logged in. Please use /login endpoint first.''),
            close_unless_reused pgs p
              (s\<lparr>trace := trace s @ [Goto (oauth_url request), WaitForLoadState]\<rparr>))
      else click_and_extract B pgs p
              (s\<lparr>trace := trace s @ [Goto (oauth_url request), WaitForLoadState]\<rparr>))"
  using assms
  by (cases "goto_r B (oauth_url request)"; cases "load_state_r B 0")
    (simp_all add: authorize_on_page_def page_goto_def wait_for_load_state_def call_def raised_def)

lemma authorize_opening_raises:
  assumes "browser_context s = Some c" "first_raised (opening_calls B request c) = Some e"
  shows "fst (authorize_oauth B request s) = Inr (oauth_failure B e)"
proof (cases "pages c")
  case (Cons p ps)
  with assms show ?thesis
    by (simp add: authorize_oauth_def opening_calls_def authorize_on_page_raises)
next
  case Nil
  show ?thesis
  proof (cases "new_page_r B")
    case (Inl e')
    with Nil assms show ?thesis
      by (simp add: authorize_oauth_def opening_calls_def new_page_def call_def raised_def)
  next
    case (Inr u)
    with Nil assms show ?thesis
      by (simp add: authorize_oauth_def opening_calls_def new_page_def call_def raised_def
            authorize_on_page_raises)
  qed
qed

lemma same_context: "browser_context s = x \<Longrightarrow> s\<lparr>browser_context := x\<rparr> = s"
  by (cases s) simp

lemma authorize_opened:
  assumes "browser_context s = Some c" "first_raised (opening_calls B request c) = None"
  shows "authorize_oauth B request s =
     (if contains ''login'' (url_r B (page_used c) 0)
      then (Inl (HTTPException 401 ''Not logged in. Please use /login endpoint first.''),
            close_unless_reused (pages c) (page_used c) (navigated request c s))
      else click_and_extract B (pages c) (page_used c) (navigated request c s))"
proof (cases "pages c")
  case (Cons p ps)
  with assms show ?thesis
    by (simp add: authorize_oauth_def opening_calls_def authorize_on_page_run page_used_def
          navigated_def same_context)
next
  case Nil
  with assms(2) have opened: "new_page_r B = Inr ()"
    and rest: "first_raised [raised (goto_r B (oauth_url request)), raised (load_state_r B 0)] = None"
    by (auto simp add: opening_calls_def raised_def split: sum.splits)
  show ?thesis
    using Nil assms(1) opened
    by (simp add: authorize_oauth_def new_page_def call_def authorize_on_page_run [OF rest]
          page_used_def navigated_def)
qed

lemma before_py_absent: "\<not> contains sep s \<Longrightarrow> before_py sep s = s"
  by (cases "partition_py sep s") (simp_all add: before_py_def contains_partition_py)

lemma code_in_url_parts:
  assumes "code_in_url url = Some v"
  shows "\<exists>pre tail. url = pre @ ''code='' @ tail \<and> \<not> contains ''code='' (pre @ ''code'') \<and>
           v = takeWhile (\<lambda>x. x \<noteq> CHR ''&'') (before_py ''code='' tail)"
proof -
  from assms obtain pre tail where cut: "partition_py ''code='' url = Some (pre, tail)"
    and v: "v = takeWhile (\<lambda>x. x \<noteq> CHR ''&'') (before_py ''code='' tail)"
    by (auto simp add: code_in_url_def split: option.splits)
  from cut have "url = pre @ ''code='' @ tail" by (rule partition_py_parts)
  moreover from partition_py_leftmost [OF cut] have "\<not> contains ''code='' (pre @ ''code'')"
    by simp
  ultimately show ?thesis using v by blast
qed

lemma redirect_code: "code_in_url ''https://app.example/cb?code=a%2Fb&state=1'' = Some ''a%2Fb''"
  by (simp add: code_in_url_def before_py_def)

lemma decode_example: "url_decode ''a%2Fb'' = ''a/b''"
  by code_simp

lemma authorize_extracts:
  assumes "browser_context s = Some c"
    and "first_raised (opening_calls B request c) = None"
    and "\<not> contains ''login'' (url_r B (page_used c) 0)"
    and "clicked B" and "load_state_r B 1 = Inr ()"
  shows "authorize_oauth B request s =
     extract_code B (pages c) (page_used c)
       (navigated request c s
          \<lparr>trace := trace (navigated request c s) @ click_actions B authorize_selectors @ [WaitForLoadState]\<rparr>)"
  using assms by (simp add: authorize_opened clicked_run)

subsection \<open>An authorization on a page that was already open\<close>

lemma click_actions_quiet: "\<not> list_ex opens_or_closes (click_actions B sels)"
  by (induction sels) (simp_all add: opens_or_closes_def)

lemma element_actions_quiet: "\<not> list_ex opens_or_closes (element_actions B sels)"
  by (induction sels) (simp_all add: opens_or_closes_def)

lemma extraction_calls_quiet: "\<not> list_ex opens_or_closes (extraction_calls B p)"
  by (simp add: extraction_calls_def element_actions_quiet opens_or_closes_def split: option.splits)

lemma click_and_extract_undisturbed:
  assumes "pgs \<noteq> []"
  shows "\<exists>acts. snd (click_and_extract B pgs p s) = s\<lparr>trace := trace s @ acts\<rparr> \<and>
           \<not> list_ex opens_or_closes acts"
proof (cases "clicked B")
  case False
  have "\<not> list_ex opens_or_closes (click_actions B authorize_selectors @ [TextContent ''body''])"
    by (simp add: click_actions_quiet opens_or_closes_def)
  with False assms show ?thesis
    by (auto simp add: not_clicked_run close_unless_reused_def)
next
  case True
  show ?thesis
  proof (cases "load_state_r B 1")
    case (Inl e)
    have "\<not> list_ex opens_or_closes (click_actions B authorize_selectors @ [WaitForLoadState])"
      by (simp add: click_actions_quiet opens_or_closes_def)
    with True Inl assms show ?thesis
      by (auto simp add: clicked_wait_raises close_unless_reused_def)
  next
    case (Inr u)
    have "\<not> list_ex opens_or_closes
        (click_actions B authorize_selectors @ [WaitForLoadState] @ extraction_calls B p)"
      by (simp add: click_actions_quiet extraction_calls_quiet opens_or_closes_def)
    moreover have "snd (click_and_extract B pgs p s) =
        s\<lparr>trace := trace s @ click_actions B authorize_selectors @ [WaitForLoadState] @ extraction_calls B p\<rparr>"
      using True Inr assms by (simp add: clicked_run extract_code_run close_unless_reused_def)
    ultimately show ?thesis by blast
  qed
qed

lemma authorize_on_page_undisturbed:
  assumes "pgs \<noteq> []"
  shows "undisturbed s (snd (authorize_on_page B request pgs p s))"
proof (cases "first_raised [raised (goto_r B (oauth_url request)), raised (load_state_r B 0)]")
  case (Some e)
  then show ?thesis
    using assms
    by (cases "goto_r B (oauth_url request)"; cases "load_state_r B 0")
      (simp_all add: authorize_on_page_def page_goto_def wait_for_load_state_def call_def raised_def
        close_unless_reused_def undisturbed_def opens_or_closes_def)
next
  case None
  let ?s = "s\<lparr>trace := trace s @ [Goto (oauth_url request), WaitForLoadState]\<rparr>"
  show ?thesis
  proof (cases "contains ''login'' (url_r B p 0)")
    case True
    with None assms show ?thesis
      by (simp add: authorize_on_page_run close_unless_reused_def undisturbed_def opens_or_closes_def)
  next
    case False
    from click_and_extract_undisturbed [OF assms, of B p ?s] obtain acts
      where "snd (click_and_extract B pgs p ?s) = ?s\<lparr>trace := trace ?s @ acts\<rparr>"
        and "\<not> list_ex opens_or_closes acts"
      by blast
    with None False show ?thesis
      by (simp add: authorize_on_page_run undisturbed_def opens_or_closes_def)
  qed
qed

subsection \<open>The clicks of an authorization\<close>







subsection \<open>Exceptions of an authorization\<close>

lemma click_and_extract_raises:
  assumes "first_raised (if clicked B then [raised (load_state_r B 1)] else [body_read B]) = Some e"
  shows "fst (click_and_extract B pgs p s) = Inr (oauth_failure B e)"
proof (cases "clicked B")
  case True
  with assms obtain "load_state_r B 1 = Inl e"
    by (cases "load_state_r B 1") (simp_all add: raised_def)
  with True show ?thesis by (simp add: clicked_wait_raises)
next
  case False
  with assms have "body_error B = e"
    by (auto simp add: body_read_def body_error_def split: sum.splits option.splits)
  with False show ?thesis by (simp add: not_clicked_run)
qed

lemma click_and_extract_answers: "\<exists>r. fst (click_and_extract B pgs p s) = Inr r"
proof (cases "clicked B")
  case False
  then show ?thesis by (simp add: not_clicked_run)
next
  case True
  then show ?thesis
    by (cases "load_state_r B 1") (simp_all add: clicked_wait_raises clicked_run extract_code_run)
qed

lemma authorize_raises:
  assumes "browser_context s = Some c" "first_raised (authorize_calls B request c) = Some e"
  shows "fst (authorize_oauth B request s) = Inr (oauth_failure B e)"
proof (cases "first_raised (opening_calls B request c)")
  case (Some e')
  with assms(2) have "e' = e"
    by (simp add: authorize_calls_def first_raised_append)
  with Some assms(1) show ?thesis
    by (simp add: authorize_opening_raises)
next
  case None
  with assms(2) have nologin: "\<not> contains ''login'' (url_r B (page_used c) 0)"
    and later: "first_raised (if clicked B then [raised (load_state_r B 1)] else [body_read B]) = Some e"
    by (auto simp add: authorize_calls_def first_raised_append split: if_splits)
  from assms(1) None nologin show ?thesis
    by (simp add: authorize_opened click_and_extract_raises [OF later])
qed

lemma authorize_status:
  assumes "browser_context s = Some c" "fst (authorize_oauth B request s) = Inl (HTTPException st d)"
  shows "st = 401"
proof (cases "first_raised (opening_calls B request c)")
  case (Some e)
  with assms show ?thesis
    by (simp add: authorize_opening_raises)
next
  case None
  show ?thesis
  proof (cases "contains ''login'' (url_r B (page_used c) 0)")
    case True
    with None assms show ?thesis by (simp add: authorize_opened)
  next
    case False
    obtain r where "fst (click_and_extract B (pages c) (page_used c) (navigated request c s)) = Inr r"
      using click_and_extract_answers by blast
    with False None assms show ?thesis by (simp add: authorize_opened)
  qed
qed

subsection \<open>The handlers when every close returns\<close>

lemma close_page_returns: "C k = Inr () \<Longrightarrow> close_page C k p s = (Inr (), page_close p s)"
  by (simp add: close_page_def)

lemma close_if_opened_returns:
  "C k = Inr () \<Longrightarrow> close_if_opened C k pgs p s = (Inr (), close_unless_reused pgs p s)"
  by (simp add: close_if_opened_def close_unless_reused_def close_page_returns)

lemma login_general_returns:
  assumes "\<forall>k. C k = Inr ()"
  shows "login_general C B request s = as_general (login B request s)"
proof -
  have closes: "\<And>k p s'. close_page C k p s' = (Inr (), page_close p s')"
    using assms by (simp add: close_page_returns)
  have step1: "\<And>p s0.
      (case login_step1_general C B (email request) p s0 of
         (Inr r, s1) \<Rightarrow> (Inr r, s1)
       | (Inl e, s1) \<Rightarrow>
          (case close_page C 3 p s1 of
             (Inl e', s2) \<Rightarrow> (Inl (Other e'), s2)
           | (Inr _, s2) \<Rightarrow> (Inl (Http (HTTPException 500 e)), s2))) =
      as_general (login_step1 B (email request) p s0)"
    by (simp add: login_step1_general_def login_step1_def closes as_general_def then_do_def
          split: prod.splits sum.splits)
  have step2: "\<And>vc p s0.
      (case login_step2_general C B (email request) vc p s0 of
         (Inr r, s1) \<Rightarrow> (Inr r, s1)
       | (Inl e, s1) \<Rightarrow>
          (case close_page C 3 p s1 of
             (Inl e', s2) \<Rightarrow> (Inl (Other e'), s2)
           | (Inr _, s2) \<Rightarrow> (Inl (Http (HTTPException 500 e)), s2))) =
      as_general (login_step2 B (email request) vc p s0)"
    by (simp add: login_step2_general_def login_step2_def closes as_general_def Let_def
          split: prod.splits sum.splits)
  show ?thesis
    by (simp add: login_general_def login_def step1 step2 as_general_def
          split: option.splits prod.splits sum.splits)
qed

lemma authorize_on_page_general_returns:
  assumes "\<forall>k. C k = Inr ()"
  shows "authorize_on_page_general C B request pgs p s = as_general (authorize_on_page B request pgs p s)"
proof -
  have closes: "\<And>k s'. close_if_opened C k pgs p s' = (Inr (), close_unless_reused pgs p s')"
    using assms by (simp add: close_if_opened_returns)
  have handled: "\<And>e s'.
      (case close_if_opened C 3 pgs p s' of
         (Inl e', s2) \<Rightarrow> (Inl (Other e'), s2)
       | (Inr _, s2) \<Rightarrow> (Inr (oauth_failure B e), s2)) =
      (Inr (oauth_failure B e), close_unless_reused pgs p s')"
    by (simp add: closes)
  have extraction: "\<And>s'.
      (case extract_code_general C B pgs p s' of
         (Inr r, s1) \<Rightarrow> (Inr r, s1)
       | (Inl (Http h), s1) \<Rightarrow> (Inl (Http h), s1)
       | (Inl (Other e), s1) \<Rightarrow> (Inr (oauth_failure B e), close_unless_reused pgs p s1)) =
      as_general (extract_code B pgs p s')"
    by (simp add: extract_code_general_def extract_code_def extraction_failed_def closes
          as_general_def Let_def split: prod.splits sum.splits option.splits)
  have missing: "\<And>s'.
      (case button_not_found_general C B pgs p s' of
         (Inr r, s1) \<Rightarrow> (Inr r, s1)
       | (Inl (Http h), s1) \<Rightarrow> (Inl (Http h), s1)
       | (Inl (Other e), s1) \<Rightarrow> (Inr (oauth_failure B e), close_unless_reused pgs p s1)) =
      as_general (button_not_found B pgs p s')"
    by (simp add: button_not_found_general_def button_not_found_def closes as_general_def
          split: prod.splits sum.splits option.splits)
  have rest: "(case click_and_extract_general C B pgs p s' of
         (Inr r, s1) \<Rightarrow> (Inr r, s1)
       | (Inl (Http h), s1) \<Rightarrow> (Inl (Http h), s1)
       | (Inl (Other e), s1) \<Rightarrow> (Inr (oauth_failure B e), close_unless_reused pgs p s1)) =
      as_general (click_and_extract B pgs p s')" for s'
  proof -
    obtain b s1 where loop: "click_authorize B authorize_selectors s' = (b, s1)"
      by (cases "click_authorize B authorize_selectors s'")
    show ?thesis
    proof (cases b)
      case False
      with loop show ?thesis
        by (simp add: click_and_extract_general_def click_and_extract_def missing)
    next
      case True
      obtain w s2 where wait: "wait_for_load_state B 1 s1 = (w, s2)"
        by (cases "wait_for_load_state B 1 s1")
      show ?thesis
      proof (cases w)
        case (Inl e)
        with loop True wait show ?thesis
          by (simp add: click_and_extract_general_def click_and_extract_def as_general_def)
      next
        case (Inr u)
        with loop True wait show ?thesis
          by (simp add: click_and_extract_general_def click_and_extract_def extraction)
      qed
    qed
  qed
  have opened: "authorize_try C B request pgs p s =
      (case then_do (page_goto B (oauth_url request) s) (\<lambda>_ s1. wait_for_load_state B 0 s1) of
         (Inl e, s2) \<Rightarrow> (Inl (Other e), s2)
       | (Inr _, s2) \<Rightarrow>
          (if contains ''login'' (url_r B p 0) then
             (Inl (Http (HTTPException 401 ''Not logged in. Please use /login endpoint first.'')),
              close_unless_reused pgs p s2)
           else click_and_extract_general C B pgs p s2))"
    by (simp add: authorize_try_def closes split: prod.splits sum.splits)
  have handler: "(case m of
         (Inr r, s1) \<Rightarrow> (Inr r, s1)
       | (Inl (Http h), s1) \<Rightarrow> (Inl (Http h), s1)
       | (Inl (Other e), s1) \<Rightarrow>
          (case close_if_opened C 3 pgs p s1 of
             (Inl e', s2) \<Rightarrow> (Inl (Other e'), s2)
           | (Inr _, s2) \<Rightarrow> (Inr (oauth_failure B e), s2))) =
      (case m of
         (Inr r, s1) \<Rightarrow> (Inr r, s1)
       | (Inl (Http h), s1) \<Rightarrow> (Inl (Http h), s1)
       | (Inl (Other e), s1) \<Rightarrow> (Inr (oauth_failure B e), close_unless_reused pgs p s1))"
    for m :: "(py_exception + OAuthResponse) \<times> server"
    by (simp add: handled split: prod.splits sum.splits py_exception.splits)
  have general: "authorize_on_page_general C B request pgs p s =
      (case authorize_try C B request pgs p s of
         (Inr r, s1) \<Rightarrow> (Inr r, s1)
       | (Inl (Http h), s1) \<Rightarrow> (Inl (Http h), s1)
       | (Inl (Other e), s1) \<Rightarrow> (Inr (oauth_failure B e), close_unless_reused pgs p s1))"
    unfolding authorize_on_page_general_def by (rule handler)
  obtain g s2 where nav:
    "then_do (page_goto B (oauth_url request) s) (\<lambda>_ s1. wait_for_load_state B 0 s1) = (g, s2)"
    by (cases "then_do (page_goto B (oauth_url request) s) (\<lambda>_ s1. wait_for_load_state B 0 s1)")
  show ?thesis
  proof (cases g)
    case (Inl e)
    with nav show ?thesis
      by (simp add: general opened authorize_on_page_def as_general_def)
  next
    case (Inr u)
    show ?thesis
    proof (cases "contains ''login'' (url_r B p 0)")
      case True
      with nav Inr show ?thesis
        by (simp add: general opened authorize_on_page_def as_general_def)
    next
      case False
      with nav Inr show ?thesis
        by (simp add: general opened authorize_on_page_def rest)
    qed
  qed
qed

lemma authorize_oauth_general_returns:
  assumes "\<forall>k. C k = Inr ()"
  shows "authorize_oauth_general C B request s = as_general (authorize_oauth B request s)"
  by (simp add: authorize_oauth_general_def authorize_oauth_def
        authorize_on_page_general_returns [OF assms] as_general_def
        split: option.splits list.splits prod.splits sum.splits)

subsection \<open>Concrete runs\<close>

lemma redirect_run:
  "browser_context fresh_server = Some \<lparr>pages = [], fresh = 0\<rparr>"
  "first_raised (opening_calls redirect_browser consent_request \<lparr>pages = [], fresh = 0\<rparr>) = None"
  "page_used \<lparr>pages = [], fresh = 0\<rparr> = 0"
  "clicked redirect_browser"
  "load_state_r redirect_browser 1 = Inr ()"
  "url_r redirect_browser 0 0 = ''https://claude.ai/oauth/authorize?client_id=app''"
  "url_r redirect_browser 0 1 = ''https://app.example/cb?code=a%2Fb&state=1''"
  "url_r redirect_browser 0 (Suc 0) = ''https://app.example/cb?code=a%2Fb&state=1''"
  by (simp_all add: fresh_server_def opening_calls_def raised_def redirect_browser_def
        idle_browser_def page_used_def clicked_def clickable_def shown_def authorize_selectors_def)

lemma key_k1: "verify_api_key ''k1'' (Some ''k1'') = Inr ''k1''"
  by (simp add: verify_api_key_def)





lemma idle_opening:
  "first_raised (opening_calls idle_browser consent_request \<lparr>pages = [], fresh = 0\<rparr>) = None"
  "\<not> contains ''login'' (url_r idle_browser 0 0)"
  by (simp_all add: opening_calls_def raised_def idle_browser_def)





section \<open>The status report: properties\<close>

text \<open>
  C9. An authenticated \<^verbatim>\<open>GET /status\<close> returns a report and leaves the server as it
  was. With no open page (or no browser context) the report has \<open>pages_open = 0\<close>,
  \<open>logged_in = False\<close> and no \<open>current_url\<close>; with an open page, \<open>logged_in\<close> holds
  exactly when the URL of the first page contains \<^verbatim>\<open>claude.ai/chat\<close> or
  \<^verbatim>\<open>claude.ai/new\<close>.
\<close>

theorem status_report:
  assumes "verify_api_key API_KEY hdr = Inr k"
  shows "\<exists>r. get_status_endpoint API_KEY B hdr s = (Inr r, s) \<and>
           (case browser_context s of
              None \<Rightarrow> pages_open r = 0 \<and> \<not> logged_in r \<and> current_url r = None
            | Some c \<Rightarrow>
                pages_open r = length (pages c) \<and>
                (case pages c of
                   [] \<Rightarrow> \<not> logged_in r \<and> current_url r = None
                 | p # _ \<Rightarrow>
                     current_url r = Some (url_r B p 0) \<and>
                     logged_in r =
                       (contains ''claude.ai/chat'' (url_r B p 0) \<or> contains ''claude.ai/new'' (url_r B p 0))))"
  using assms
  by (simp add: get_status_endpoint_def get_status_def split: option.splits list.splits)

theorem status_report_witness:
  "verify_api_key ''k1'' (Some ''k1'') = Inr ''k1'' \<and>
   get_status_endpoint ''k1'' idle_browser (Some ''k1'')
     \<lparr>browser_context = Some \<lparr>pages = [], fresh = 0\<rparr>, trace = []\<rparr> =
   (Inr \<lparr>browser_active = True, pages_open = 0, current_url = None, logged_in = False\<rparr>,
    \<lparr>browser_context = Some \<lparr>pages = [], fresh = 0\<rparr>, trace = []\<rparr>) \<and>
   logged_in (get_status idle_browser \<lparr>browser_context = Some \<lparr>pages = [4], fresh = 5\<rparr>, trace = []\<rparr>)"
proof -
  have k: "verify_api_key ''k1'' (Some ''k1'') = Inr ''k1''"
    by (simp add: verify_api_key_def)
  from status_report [OF k, of idle_browser "\<lparr>browser_context = Some \<lparr>pages = [], fresh = 0\<rparr>, trace = []\<rparr>"]
       status_report [OF k, of idle_browser "\<lparr>browser_context = Some \<lparr>pages = [4], fresh = 5\<rparr>, trace = []\<rparr>"]
  show ?thesis
    using k by (auto simp add: get_status_endpoint_def get_status_def idle_browser_def)
qed

section \<open>The API key check: properties\<close>

lemma verify_api_key_cases:
  "verify_api_key API_KEY hdr =
     (if hdr = Some API_KEY \<and> API_KEY \<noteq> [] then Inr API_KEY else Inl unauthorized)"
  by (auto simp add: verify_api_key_def unauthorized_def split: option.splits)

text \<open>
  C2, as amended. On each protected endpoint, a request whose \<^verbatim>\<open>X-API-Key\<close> header is
  absent or differs from the configured key, or any request when the configured key is
  empty, gets status 401 and the server is left untouched: the handler does not run
  and no call reaches the browser. A request whose header is the configured, non-empty
  key passes the check and gets the handler's answer.
\<close>

theorem api_key_gate:
  "(hdr \<noteq> Some API_KEY \<or> API_KEY = [] \<longrightarrow>
      post_login API_KEY B hdr lreq s = (Inl unauthorized, s) \<and>
      post_oauth_authorize API_KEY B hdr oreq s = (Inl unauthorized, s) \<and>
      get_status_endpoint API_KEY B hdr s = (Inl unauthorized, s)) \<and>
   (hdr = Some API_KEY \<and> API_KEY \<noteq> [] \<longrightarrow>
      verify_api_key API_KEY hdr = Inr API_KEY \<and>
      post_login API_KEY B hdr lreq s = login B lreq s \<and>
      post_oauth_authorize API_KEY B hdr oreq s = authorize_oauth B oreq s \<and>
      get_status_endpoint API_KEY B hdr s = (Inr (get_status B s), s))"
  by (auto simp add: verify_api_key_cases post_login_def post_oauth_authorize_def
        get_status_endpoint_def)

theorem api_key_gate_witness:
  "post_login ''k1'' idle_browser None \<lparr>email = ''a@b.c'', verification_code = None\<rparr> fresh_server =
     (Inl (HTTPException 401 ''Invalid API key''), fresh_server) \<and>
   post_oauth_authorize ''k1'' idle_browser (Some ''k2'') \<lparr>oauth_url = ''https://claude.ai/oauth''\<rparr> fresh_server =
     (Inl (HTTPException 401 ''Invalid API key''), fresh_server) \<and>
   get_status_endpoint ''k1'' idle_browser (Some ''k1'') fresh_server =
     (Inr (get_status idle_browser fresh_server), fresh_server)"
  using api_key_gate [of None "''k1''" idle_browser "\<lparr>email = ''a@b.c'', verification_code = None\<rparr>" fresh_server]
        api_key_gate [of "Some ''k2''" "''k1''" idle_browser _ fresh_server "\<lparr>oauth_url = ''https://claude.ai/oauth''\<rparr>"]
        api_key_gate [of "Some ''k1''" "''k1''" idle_browser _ fresh_server]
  by (simp add: unauthorized_def)

text \<open>
  The claim as stated fails for the empty key: with \<^verbatim>\<open>API_KEY\<close> configured as the empty
  string, the request that carries exactly that key is answered with 401.
\<close>

theorem empty_key_counterexample:
  "verify_api_key [] (Some []) = Inl (HTTPException 401 ''Invalid API key'') \<and>
   get_status_endpoint [] idle_browser (Some []) fresh_server =
     (Inl (HTTPException 401 ''Invalid API key''), fresh_server)"
  by (simp add: verify_api_key_def get_status_endpoint_def)

section \<open>The login flow: properties\<close>







section \<open>The OAuth authorization flow: properties\<close>

text \<open>
  C1, as amended. In an authenticated \<^verbatim>\<open>POST /oauth/authorize\<close> that reaches the read of
  the URL after the click (the page is there, navigation and both waits return, the
  URL after navigation does not contain \<^verbatim>\<open>login\<close>, a click returns), if that URL
  contains \<^verbatim>\<open>code=\<close> then the answer has \<open>success = True\<close> and its code is the text
  that follows the leftmost \<^verbatim>\<open>code=\<close>, cut at the next \<^verbatim>\<open>code=\<close> if there is one and
  then at the first \<^verbatim>\<open>&\<close>, exactly as it stands in the URL: nothing is decoded. The
  page is left open.
\<close>

theorem code_from_redirect_url:
  assumes "verify_api_key API_KEY hdr = Inr k"
    and "browser_context s = Some c"
    and "first_raised (opening_calls B request c) = None"
    and "\<not> contains ''login'' (url_r B (page_used c) 0)"
    and "clicked B" and "load_state_r B 1 = Inr ()"
    and "contains ''code='' (url_r B (page_used c) 1)"
  shows "\<exists>v. code_in_url (url_r B (page_used c) 1) = Some v \<and>
           post_oauth_authorize API_KEY B hdr request s =
             (Inr \<lparr>success = True, code = Some v, error = None,
                   request_id = uuid4_r B, timestamp = utcnow_r B\<rparr>,
              navigated request c s
                \<lparr>trace := trace (navigated request c s) @
                   click_actions B authorize_selectors @ [WaitForLoadState]\<rparr>) \<and>
           (\<exists>pre tail.
              url_r B (page_used c) 1 = pre @ ''code='' @ tail \<and>
              \<not> contains ''code='' (pre @ ''code'') \<and>
              v = takeWhile (\<lambda>x. x \<noteq> CHR ''&'') (before_py ''code='' tail))"
proof -
  from code_in_url_split [OF assms(7)] obtain v where v: "code_in_url (url_r B (page_used c) 1) = Some v"
    by blast
  have "post_oauth_authorize API_KEY B hdr request s = authorize_oauth B request s"
    using assms(1) by (simp add: post_oauth_authorize_def)
  also have "\<dots> = extract_code B (pages c) (page_used c)
       (navigated request c s
          \<lparr>trace := trace (navigated request c s) @ click_actions B authorize_selectors @ [WaitForLoadState]\<rparr>)"
    using assms(2-6) by (rule authorize_extracts)
  also have "\<dots> = (Inr (oauth_success B v),
       navigated request c s
          \<lparr>trace := trace (navigated request c s) @ click_actions B authorize_selectors @ [WaitForLoadState]\<rparr>)"
    using v by (simp add: extract_code_run extraction_response_def extraction_calls_def strategy_url_def)
  finally show ?thesis
    using v code_in_url_parts [OF v] by (simp add: oauth_success_def)
qed

theorem code_from_redirect_url_witness:
  "verify_api_key ''k1'' (Some ''k1'') = Inr ''k1'' \<and>
   clicked redirect_browser \<and>
   contains ''code='' (url_r redirect_browser 0 1) \<and>
   fst (post_oauth_authorize ''k1'' redirect_browser (Some ''k1'') consent_request fresh_server) =
     Inr \<lparr>success = True, code = Some ''a%2Fb'', error = None, request_id = ''id'', timestamp = 0\<rparr>"
proof -
  have nologin: "\<not> contains ''login'' (url_r redirect_browser (page_used \<lparr>pages = [], fresh = 0\<rparr>) 0)"
    by (simp add: redirect_run)
  have hascode: "contains ''code='' (url_r redirect_browser (page_used \<lparr>pages = [], fresh = 0\<rparr>) 1)"
    by (simp add: redirect_run)
  have ids: "uuid4_r redirect_browser = ''id''" "utcnow_r redirect_browser = 0"
    by (simp_all add: redirect_browser_def idle_browser_def)
  from code_from_redirect_url [OF key_k1 redirect_run(1) redirect_run(2) nologin redirect_run(4)
      redirect_run(5) hascode]
  show ?thesis
    using hascode by (auto simp add: redirect_run redirect_code key_k1 ids)
qed

text \<open>
  The claim as stated fails on a percent-encoded code: for the callback URL
  \<^verbatim>\<open>https://app.example/cb?code=a%2Fb&state=1\<close> the answer carries \<^verbatim>\<open>a%2Fb\<close>, not its
  decoding \<^verbatim>\<open>a/b\<close>.
\<close>

theorem url_decoding_counterexample:
  "fst (post_oauth_authorize ''k1'' redirect_browser (Some ''k1'') consent_request fresh_server) =
     Inr \<lparr>success = True, code = Some ''a%2Fb'', error = None, request_id = ''id'', timestamp = 0\<rparr> \<and>
   url_r redirect_browser 0 1 = ''https://app.example/cb?code=a%2Fb&state=1'' \<and>
   url_decode ''a%2Fb'' = ''a/b'' \<and>
   ''a%2Fb'' \<noteq> ''a/b''"
proof -
  have nologin: "\<not> contains ''login'' (url_r redirect_browser (page_used \<lparr>pages = [], fresh = 0\<rparr>) 0)"
    by (simp add: redirect_run)
  have "authorize_oauth redirect_browser consent_request fresh_server =
      extract_code redirect_browser [] 0
        (navigated consent_request \<lparr>pages = [], fresh = 0\<rparr> fresh_server
          \<lparr>trace := trace (navigated consent_request \<lparr>pages = [], fresh = 0\<rparr> fresh_server) @
             click_actions redirect_browser authorize_selectors @ [WaitForLoadState]\<rparr>)"
    using authorize_extracts [OF redirect_run(1) redirect_run(2) nologin redirect_run(4) redirect_run(5)]
    by (simp add: redirect_run)
  then have "fst (authorize_oauth redirect_browser consent_request fresh_server) =
      Inr (oauth_success redirect_browser ''a%2Fb'')"
    by (simp add: extract_code_run extraction_response_def strategy_url_def redirect_run redirect_code)
  moreover have "oauth_success redirect_browser ''a%2Fb'' =
      \<lparr>success = True, code = Some ''a%2Fb'', error = None, request_id = ''id'', timestamp = 0\<rparr>"
    by (simp add: oauth_success_def redirect_browser_def idle_browser_def)
  ultimately have answer:
    "fst (post_oauth_authorize ''k1'' redirect_browser (Some ''k1'') consent_request fresh_server) =
       Inr \<lparr>success = True, code = Some ''a%2Fb'', error = None, request_id = ''id'', timestamp = 0\<rparr>"
    by (simp add: post_oauth_authorize_def key_k1)
  have differ: "''a%2Fb'' \<noteq> ''a/b''"
    by simp
  from answer redirect_run(7) decode_example differ show ?thesis
    by blast
qed









section \<open>Exceptions that no inner handler catches\<close>

text \<open>
  As long as every \<^verbatim>\<open>page.close()\<close> returns, on a running server and for authenticated
  requests: when a call of \<^verbatim>\<open>POST /login\<close> that no inner handler protects raises, the
  answer is status 500 whose detail is the text of that exception; when such a call of
  \<^verbatim>\<open>POST /oauth/authorize\<close> raises, the answer is a response body with
  \<open>success = False\<close> and the text of the exception as its error, and the only status
  with which \<^verbatim>\<open>POST /oauth/authorize\<close> raises is 401.
\<close>

lemma exceptions_when_close_returns:
  assumes "verify_api_key API_KEY hdr = Inr k"
    and "browser_context s = Some c"
  shows "(\<forall>e. first_raised (login_calls B lreq) = Some e \<longrightarrow>
              fst (post_login API_KEY B hdr lreq s) = Inl (HTTPException 500 e)) \<and>
         (\<forall>e. first_raised (authorize_calls B oreq c) = Some e \<longrightarrow>
              fst (post_oauth_authorize API_KEY B hdr oreq s) =
                Inr \<lparr>success = False, code = None, error = Some e,
                     request_id = uuid4_r B, timestamp = utcnow_r B\<rparr>) \<and>
         (\<forall>st d. fst (post_oauth_authorize API_KEY B hdr oreq s) = Inl (HTTPException st d) \<longrightarrow>
              st = 401)"
proof -
  have "post_login API_KEY B hdr lreq s = login B lreq s"
    and "post_oauth_authorize API_KEY B hdr oreq s = authorize_oauth B oreq s"
    using assms(1) by (simp_all add: post_login_def post_oauth_authorize_def)
  then show ?thesis
    using authorize_raises [OF assms(2), of B oreq] authorize_status [OF assms(2), of B oreq]
    by (auto simp add: login_fst [OF assms(2)] oauth_failure_def)
qed

text \<open>
  C5. An exception that no inner handler catches should be answered by
  \<^verbatim>\<open>POST /login\<close> with status 500 and the exception's text, and by
  \<^verbatim>\<open>POST /oauth/authorize\<close> with a response body, never with a 5xx. Both handlers miss
  a case: the \<^verbatim>\<open>await page.close()\<close> inside the handler of \<^verbatim>\<open>except Exception\<close> is
  itself unprotected. On a fresh server, with the network down (the navigation raises)
  and a close that raises, the exception of the close leaves both handlers: each route
  answers with a plain status 500, \<^verbatim>\<open>POST /oauth/authorize\<close> without a response
  body, and \<^verbatim>\<open>POST /login\<close> without the text of the navigation's exception.
\<close>

theorem close_failure_escapes:
  "post_oauth_authorize_general ''k1'' failing_closes offline_browser (Some ''k1'') consent_request
     fresh_server =
     (Inl (Other ''Target.closeTarget failed''),
      \<lparr>browser_context = Some \<lparr>pages = [0], fresh = 1\<rparr>,
       trace = [NewPage, Goto ''https://claude.ai/oauth/authorize?client_id=app'', Close 0]\<rparr>) \<and>
   post_login_general ''k1'' failing_closes offline_browser (Some ''k1'')
     \<lparr>email = ''a@b.c'', verification_code = None\<rparr> fresh_server =
     (Inl (Other ''Target.closeTarget failed''),
      \<lparr>browser_context = Some \<lparr>pages = [0], fresh = 1\<rparr>,
       trace = [NewPage, Goto ''https://claude.ai/login'', Close 0]\<rparr>) \<and>
   response_status (Other ''Target.closeTarget failed'') = 500 \<and>
   goto_r offline_browser ''https://claude.ai/login'' = Inl ''net::ERR_INTERNET_DISCONNECTED''"
proof -
  have nav: "goto_r offline_browser url = Inl ''net::ERR_INTERNET_DISCONNECTED''" for url
    by (simp add: offline_browser_def)
  have opened: "new_page_r offline_browser = Inr ()"
    by (simp add: offline_browser_def idle_browser_def)
  have closes: "failing_closes k = Inl ''Target.closeTarget failed''" for k
    by (simp add: failing_closes_def)
  have first: "post_oauth_authorize_general ''k1'' failing_closes offline_browser (Some ''k1'')
      consent_request fresh_server =
      (Inl (Other ''Target.closeTarget failed''),
       \<lparr>browser_context = Some \<lparr>pages = [0], fresh = 1\<rparr>,
        trace = [NewPage, Goto ''https://claude.ai/oauth/authorize?client_id=app'', Close 0]\<rparr>)"
    by (simp add: post_oauth_authorize_general_def key_k1 authorize_oauth_general_def
          authorize_on_page_general_def authorize_try_def new_page_def page_goto_def call_def
          close_if_opened_def close_page_def nav opened closes fresh_server_def consent_request_def)
  have second: "post_login_general ''k1'' failing_closes offline_browser (Some ''k1'')
      \<lparr>email = ''a@b.c'', verification_code = None\<rparr> fresh_server =
      (Inl (Other ''Target.closeTarget failed''),
       \<lparr>browser_context = Some \<lparr>pages = [0], fresh = 1\<rparr>,
        trace = [NewPage, Goto ''https://claude.ai/login'', Close 0]\<rparr>)"
    by (simp add: post_login_general_def key_k1 login_general_def login_step1_general_def
          enter_email_def new_page_def page_goto_def call_def close_page_def nav opened closes
          fresh_server_def login_url_def)
  have third: "response_status (Other ''Target.closeTarget failed'') = 500"
    by (simp add: response_status_def)
  from first second third nav show ?thesis by blast
qed

section \<open>The page set of the shared session\<close>

text \<open>
  C10. When the browser context holds an open page at the start of
  \<^verbatim>\<open>POST /oauth/authorize\<close>, the handler works on the first of them, and whatever the
  browser answers (success, no button, no code, exception, login redirect, or a
  request turned away by the key check) the context at the end is the one at the start
  and the calls of the request contain neither \<^verbatim>\<open>new_page()\<close> nor \<^verbatim>\<open>page.close()\<close>.
\<close>

theorem reused_page_stays_open:
  assumes "browser_context s = Some c" and "pages c \<noteq> []"
  shows "authorize_oauth B request s = authorize_on_page B request (pages c) (hd (pages c)) s \<and>
         browser_context (snd (post_oauth_authorize API_KEY B hdr request s)) = Some c \<and>
         (\<exists>acts. trace (snd (post_oauth_authorize API_KEY B hdr request s)) = trace s @ acts \<and>
                 NewPage \<notin> set acts \<and> (\<forall>p. Close p \<notin> set acts))"
proof -
  have reuse: "authorize_oauth B request s = authorize_on_page B request (pages c) (hd (pages c)) s"
    using assms by (cases "pages c") (simp_all add: authorize_oauth_def)
  have "undisturbed s (snd (authorize_oauth B request s))"
    using assms(2) by (simp add: reuse authorize_on_page_undisturbed)
  moreover have "undisturbed s s"
    by (simp add: undisturbed_def)
  ultimately have "undisturbed s (snd (post_oauth_authorize API_KEY B hdr request s))"
    by (simp add: post_oauth_authorize_def split: sum.splits)
  then obtain acts where ctx: "browser_context (snd (post_oauth_authorize API_KEY B hdr request s)) = Some c"
    and tr: "trace (snd (post_oauth_authorize API_KEY B hdr request s)) = trace s @ acts"
    and quiet: "\<not> list_ex opens_or_closes acts"
    using assms(1) by (auto simp add: undisturbed_def)
  from quiet have "NewPage \<notin> set acts \<and> (\<forall>p. Close p \<notin> set acts)"
    by (auto simp add: list_ex_iff opens_or_closes_def)
  with reuse ctx tr show ?thesis by blast
qed

theorem reused_page_stays_open_witness:
  "browser_context logged_in_server = Some \<lparr>pages = [4], fresh = 5\<rparr> \<and>
   pages \<lparr>pages = [4], fresh = 5\<rparr> \<noteq> [] \<and>
   browser_context
     (snd (post_oauth_authorize ''k1'' redirect_browser (Some ''k1'') consent_request logged_in_server)) =
     Some \<lparr>pages = [4], fresh = 5\<rparr> \<and>
   trace (snd (post_oauth_authorize ''k1'' redirect_browser (Some ''k1'') consent_request logged_in_server)) =
     [Goto ''https://claude.ai/oauth/authorize?client_id=app'', WaitForLoadState,
      IsVisible ''button:has-text(\"Authorize\")'', IsVisible ''button:has-text(\"Allow\")'',
      Click ''button:has-text(\"Allow\")'', WaitForLoadState]"
proof -
  have ctx: "browser_context logged_in_server = Some \<lparr>pages = [4], fresh = 5\<rparr>"
    by (simp add: logged_in_server_def)
  have some: "pages \<lparr>pages = [4], fresh = 5\<rparr> \<noteq> []"
    by simp
  have quiet: "first_raised (opening_calls redirect_browser consent_request \<lparr>pages = [4], fresh = 5\<rparr>) = None"
    by (simp add: opening_calls_def raised_def redirect_browser_def idle_browser_def)
  have urls: "url_r redirect_browser 4 0 = ''https://claude.ai/oauth/authorize?client_id=app''"
    "url_r redirect_browser 4 (Suc 0) = ''https://app.example/cb?code=a%2Fb&state=1''"
    by (simp_all add: redirect_browser_def idle_browser_def)
  have nologin: "\<not> contains ''login'' (url_r redirect_browser (page_used \<lparr>pages = [4], fresh = 5\<rparr>) 0)"
    by (simp add: page_used_def urls)
  have buttons: "click_actions redirect_browser authorize_selectors =
      [IsVisible ''button:has-text(\"Authorize\")'', IsVisible ''button:has-text(\"Allow\")'',
       Click ''button:has-text(\"Allow\")'']"
    by (simp add: authorize_selectors_def shown_def clickable_def redirect_browser_def idle_browser_def)
  have "trace (snd (authorize_oauth redirect_browser consent_request logged_in_server)) =
      [Goto ''https://claude.ai/oauth/authorize?client_id=app'', WaitForLoadState,
       IsVisible ''button:has-text(\"Authorize\")'', IsVisible ''button:has-text(\"Allow\")'',
       Click ''button:has-text(\"Allow\")'', WaitForLoadState]"
    using authorize_extracts [OF ctx quiet nologin redirect_run(4) redirect_run(5)]
    by (simp add: extract_code_run extraction_calls_def strategy_url_def page_used_def urls
          redirect_code navigated_def buttons logged_in_server_def consent_request_def)
  then have "trace (snd (post_oauth_authorize ''k1'' redirect_browser (Some ''k1'') consent_request
      logged_in_server)) =
      [Goto ''https://claude.ai/oauth/authorize?client_id=app'', WaitForLoadState,
       IsVisible ''button:has-text(\"Authorize\")'', IsVisible ''button:has-text(\"Allow\")'',
       Click ''button:has-text(\"Allow\")'', WaitForLoadState]"
    by (simp add: post_oauth_authorize_def key_k1)
  with reused_page_stays_open [OF ctx some, of redirect_browser consent_request "''k1''" "Some ''k1''"]
    ctx some
  show ?thesis by blast
qed

end
